theory Spec2Isabelle
  imports Main "HOL-Library.Char_ord" "HOL-Library.List_Lexorder"
begin

section \<open>Data model of \<open>src/main.ts\<close>\<close>

text \<open>
  Values that the TypeScript code throws or rejects with. \<open>FTPError c\<close> is an error object
  of the transfer client carrying the numeric reply \<open>code\<close>; \<open>JsError m\<close> is
  \<open>new Error(m)\<close> (and the errors of the runtime, which have no numeric \<open>code\<close>);
  \<open>Reason m\<close> is a plain string used as a rejection value (\<open>reject("calc fail")\<close>);
  \<open>CantOpen e\<close> is the string built by \<open>downloadFileList\<close> around the reason \<open>e\<close>.
\<close>

datatype exn = FTPError int | JsError string | Reason string | CantOpen exn

text \<open>The property read \<open>e.code\<close>: only client errors carry a number there.\<close>

fun code :: "exn \<Rightarrow> int option" where
  "code (FTPError c) = Some c"
| "code (JsError m) = None"
| "code (Reason m) = None"
| "code (CantOpen e) = None"

text \<open>The three ways an awaited promise can end: a value, a rejection, or never.\<close>

datatype 'a promise = Resolved 'a | Rejected exn | Unsettled

datatype rtype = File | Folder

text \<open>\<open>Record\<close> of \<open>./types\<close>: \<open>type\<close>, \<open>name\<close>, \<open>size\<close> (\<open>undefined\<close> for a folder), \<open>hash\<close>.\<close>

record Record =
  rec_type :: rtype
  rec_name :: string
  rec_size :: "nat option"
  rec_hash :: "string option"

record IFileList =
  description :: string
  version :: string
  generatedTime :: nat
  data :: "Record list"

text \<open>The result of \<open>IDiff.getDiffs\<close>, as \<open>deploy\<close> reads it.\<close>

record DiffResult =
  upload :: "Record list"
  delete :: "Record list"
  replace :: "Record list"
  sizeUpload :: nat
  sizeDelete :: nat
  sizeReplace :: nat

record IFtpDeployArguments =
  server :: string
  username :: string
  password :: string
  state_name :: string
  log_level :: string
  dangerous_clean_slate :: bool
  include_arg :: "string list option"
  exclude :: "string list option"

text \<open>What the directory walker reports for one path (\<open>Stats\<close> of readdir-enhanced).\<close>

datatype stat_kind = Directory | RegularFile | SymbolicLink | OtherKind

record Stats =
  path :: string
  kind :: stat_kind
  stat_size :: nat

datatype algorithm = MD5 | SHA1 | SHA256 | SHA512

text \<open>
  What a read stream emits. \<open>fileHash\<close> listens for \<open>data\<close> and \<open>end\<close>; the stream reports
  a failure to open or to read by an \<open>error\<close> event.
\<close>

datatype stream_event = Data string | End | StreamError exn

text \<open>The calls made on the transfer client (\<open>basic-ftp\<close>).\<close>

datatype ftp_op =
    Access string string string
  | ClearWorkingDir
  | DownloadTo string
  | EnsureDir string
  | UploadFrom string string
  | Remove string
  | RemoveDir string
  | Cdup
  | Close

text \<open>
  An observable effect of a run: a call on the client with its outcome (\<open>None\<close> when it
  succeeded, \<open>Some e\<close> when it threw \<open>e\<close>), or a write of a local file.
\<close>

datatype event = Ftp ftp_op "exn option" | WriteFile string string

datatype level = LAll | LInfo | LDebug | LWarn | ConsoleWarn

text \<open>
  The log lines of \<open>main.ts\<close>, one constructor for each template, carrying the values
  the template interpolates.
\<close>

datatype msg =
    Rule
  | Welcome
  | SupportIt
  | GiveStar
  | SymlinkUnsupported
  | Uploading string
  | NoNeedToChangeDir
  | ChangingDirTo string
  | DirChanged
  | UploadStarted
  | FileUploaded
  | Completed
  | CompletedUpper
  | CreatingFolder string
  | CreatingFolderDir string
  | RemovingFolder string
  | RemovingFolderDir string
  | FolderDoesNotExist
  | RemovingFile string
  | RemovingFileName string
  | FileRemoved
  | FileDoesNotExist
  | RemovingAll
  | ClearComplete
  | LastPublished nat
  | NoFileOnServer string
  | FirstPublishSlow
  | SomethingIsWrong
  | MakingChanges nat
  | Sizes nat nat nat
  | SyncComplete string
  | Error553
  | ErrorCaught exn
  | CouldntFindFile
  | Thrown exn
  | TimeHashing
  | TimeConnecting
  | TimeDeploying
  | TotalTime

text \<open>The state of the world that a run changes: the effects so far and the log.\<close>

record world =
  trace :: "event list"
  logs :: "(level \<times> msg) list"

text \<open>
  The collaborators of \<open>main.ts\<close>, as parameters: the glob matcher, the hash function,
  the directory walker, the local file system, the JSON codec, the clock, the transfer
  client (whose answer may depend on everything that happened before), the diff tool,
  the computation of the upload speed for the closing report (the timers of
  \<open>./utilities\<close> and \<open>prettyBytes\<close>, which throws on a number that is not finite), and the
  two constants of \<open>./types\<close>.
\<close>

record env =
  multiMatch :: "string \<Rightarrow> string list \<Rightarrow> string list"
  digest_hex :: "algorithm \<Rightarrow> string \<Rightarrow> string"
  createReadStream :: "string \<Rightarrow> exn + stream_event list"
  readdir :: "exn + Stats list"
  writeFileSync :: "string \<Rightarrow> string \<Rightarrow> exn option"
  json_stringify :: "IFileList \<Rightarrow> string"
  json_parse :: "string \<Rightarrow> exn + IFileList"
  getTime :: nat
  client :: "event list \<Rightarrow> ftp_op \<Rightarrow> exn option"
  download_data :: "event list \<Rightarrow> string \<Rightarrow> string"
  getDiffs :: "IFileList \<Rightarrow> IFileList \<Rightarrow> exn + DiffResult"
  closing_report :: "event list \<Rightarrow> exn option"
  syncFileDescription :: string
  FileNotFoundOrNoAccess :: int

definition logger :: "level \<Rightarrow> msg \<Rightarrow> world \<Rightarrow> world" where
  "logger l m w = w\<lparr>logs := logs w @ [(l, m)]\<rparr>"

section \<open>The content hasher\<close>

text \<open>
  \<open>fileHash\<close>, lines 14-33. The handlers update the hash on \<open>data\<close> and resolve with the
  digest on \<open>end\<close>. No handler is registered for \<open>error\<close>: such an event is not caught by
  the \<open>try\<close> block (which only covers the synchronous call of \<open>createReadStream\<close>), and
  neither \<open>resolve\<close> nor \<open>reject\<close> is called; a stream that has emitted \<open>error\<close> emits
  no \<open>end\<close> after it. The second argument is the input the hash has been updated with
  so far.
\<close>

fun on_events :: "(string \<Rightarrow> string) \<Rightarrow> string \<Rightarrow> stream_event list \<Rightarrow> string promise" where
  "on_events dg shasum [] = Unsettled"
| "on_events dg shasum (Data d # es) = on_events dg (shasum @ d) es"
| "on_events dg shasum (End # es) = Resolved (dg shasum)"
| "on_events dg shasum (StreamError e # es) = Unsettled"

definition fileHash :: "env \<Rightarrow> string \<Rightarrow> algorithm \<Rightarrow> string promise" where
  "fileHash env filename alg =
     (case createReadStream env filename of
        Inl error \<Rightarrow> Rejected (Reason ''calc fail'')
      | Inr s \<Rightarrow> on_events (digest_hex env alg) [] s)"

section \<open>The inventory builder\<close>

text \<open>\<open>includeExcludeFilter\<close>, lines 36-55.\<close>

definition includeExcludeFilter :: "env \<Rightarrow> Stats \<Rightarrow> IFtpDeployArguments \<Rightarrow> bool" where
  "includeExcludeFilter env stat args =
     (if (case exclude args of
            None \<Rightarrow> False
          | Some ex \<Rightarrow> length (multiMatch env (path stat) ex) > 0)
      then False
      else if (case include_arg args of
                 None \<Rightarrow> False
               | Some inc \<Rightarrow> length (multiMatch env (path stat) inc) > 0)
      then True
      else True)"

text \<open>The loop of \<open>getLocalFiles\<close>, lines 61-86, pushing onto \<open>records\<close>.\<close>

fun push_records :: "env \<Rightarrow> Stats list \<Rightarrow> Record list \<Rightarrow> world \<Rightarrow> Record list promise \<times> world" where
  "push_records env [] records w = (Resolved records, w)"
| "push_records env (stat # files) records w =
     (if kind stat = Directory then
        push_records env files
          (records @ [\<lparr>rec_type = Folder, rec_name = path stat, rec_size = None, rec_hash = None\<rparr>]) w
      else if kind stat = RegularFile then
        (case fileHash env (path stat) SHA256 of
           Resolved h \<Rightarrow>
             push_records env files
               (records @ [\<lparr>rec_type = File, rec_name = path stat,
                            rec_size = Some (stat_size stat), rec_hash = Some h\<rparr>]) w
         | Rejected e \<Rightarrow> (Rejected e, w)
         | Unsettled \<Rightarrow> (Unsettled, w))
      else if kind stat = SymbolicLink then
        push_records env files records (logger ConsoleWarn SymlinkUnsupported w)
      else push_records env files records w)"

text \<open>\<open>getLocalFiles\<close>, lines 57-94.\<close>

definition getLocalFiles :: "env \<Rightarrow> IFtpDeployArguments \<Rightarrow> world \<Rightarrow> IFileList promise \<times> world" where
  "getLocalFiles env args w =
     (case readdir env of
        Inl e \<Rightarrow> (Rejected e, w)
      | Inr found \<Rightarrow>
          (case push_records env (filter (\<lambda>stat. includeExcludeFilter env stat args) found) [] w of
             (Resolved records, w') \<Rightarrow>
               (Resolved \<lparr>description = syncFileDescription env, version = ''1.0.0'',
                          generatedTime = getTime env, data = records\<rparr>, w')
           | (Rejected e, w') \<Rightarrow> (Rejected e, w')
           | (Unsettled, w') \<Rightarrow> (Unsettled, w')))"

section \<open>Remote operations\<close>

text \<open>
  One awaited call on the client: the call is recorded with its outcome, and a failure
  is the exception of the caller.
\<close>

definition ftp :: "env \<Rightarrow> ftp_op \<Rightarrow> world \<Rightarrow> (exn + unit) \<times> world" where
  "ftp env op w =
     (let r = client env (trace w) op;
          w' = w\<lparr>trace := trace w @ [Ftp op r]\<rparr>
      in case r of None \<Rightarrow> (Inr (), w') | Some e \<Rightarrow> (Inl e, w'))"

text \<open>Sequencing: the statements after a throwing statement do not run.\<close>

definition and_then ::
  "(exn + unit) \<times> world \<Rightarrow> (world \<Rightarrow> (exn + unit) \<times> world) \<Rightarrow> (exn + unit) \<times> world" where
  "and_then r f = (case r of (Inl e, w) \<Rightarrow> (Inl e, w) | (Inr u, w) \<Rightarrow> f w)"

text \<open>\<open>fullPath.split("/")\<close> and \<open>folders.join("/")\<close>.\<close>

fun split_slash :: "string \<Rightarrow> string list" where
  "split_slash [] = [[]]"
| "split_slash (c # cs) =
     (if c = CHR ''/'' then [] # split_slash cs
      else (case split_slash cs of [] \<Rightarrow> [[c]] | x # xs \<Rightarrow> (c # x) # xs))"

fun join_slash :: "string list \<Rightarrow> string" where
  "join_slash [] = []"
| "join_slash [x] = x"
| "join_slash (x # y # ys) = x @ ''/'' @ join_slash (y # ys)"

record IFilePath =
  folders :: "string list option"
  file_part :: "string option"

text \<open>\<open>getFileBreadcrumbs\<close>, lines 128-139.\<close>

definition getFileBreadcrumbs :: "string \<Rightarrow> IFilePath" where
  "getFileBreadcrumbs fullPath =
     (let pathSplit = split_slash fullPath;
          file = (if pathSplit = [] then [] else last pathSplit);
          folders = filter (\<lambda>folderName. folderName \<noteq> []) (butlast pathSplit)
      in \<lparr>folders = (if length folders = 0 then None else Some folders),
          file_part = (if file = [] then None else Some file)\<rparr>)"

text \<open>\<open>upDir\<close>, lines 144-153; \<open>cdups\<close> is its loop.\<close>

fun cdups :: "env \<Rightarrow> nat \<Rightarrow> world \<Rightarrow> (exn + unit) \<times> world" where
  "cdups env 0 w = (Inr (), w)"
| "cdups env (Suc n) w = and_then (ftp env Cdup w) (cdups env n)"

definition upDir :: "env \<Rightarrow> nat option \<Rightarrow> world \<Rightarrow> (exn + unit) \<times> world" where
  "upDir env dirCount w = (case dirCount of None \<Rightarrow> (Inr (), w) | Some n \<Rightarrow> cdups env n w)"

text \<open>\<open>uploadFile\<close>, lines 162-186.\<close>

definition uploadFile :: "env \<Rightarrow> string \<Rightarrow> world \<Rightarrow> (exn + unit) \<times> world" where
  "uploadFile env filePath w0 =
     (let w = logger LAll (Uploading filePath) w0;
          path = getFileBreadcrumbs filePath
      in and_then
           (case folders path of
              None \<Rightarrow> (Inr (), logger LDebug NoNeedToChangeDir w)
            | Some fs \<Rightarrow>
                and_then (ftp env (EnsureDir (join_slash fs))
                            (logger LDebug (ChangingDirTo (join_slash fs)) w))
                  (\<lambda>w. (Inr (), logger LDebug DirChanged w)))
           (\<lambda>w. and_then
              (case file_part path of
                 None \<Rightarrow> (Inr (), w)
               | Some f \<Rightarrow>
                   and_then (ftp env (UploadFrom filePath f) (logger LDebug UploadStarted w))
                     (\<lambda>w. (Inr (), logger LDebug FileUploaded w)))
              (\<lambda>w. and_then (upDir env (map_option length (folders path)) w)
                 (\<lambda>w. (Inr (), logger LDebug Completed w)))))"

text \<open>\<open>createFolder\<close>, lines 188-205.\<close>

definition createFolder :: "env \<Rightarrow> string \<Rightarrow> world \<Rightarrow> (exn + unit) \<times> world" where
  "createFolder env folderPath w0 =
     (let w = logger LAll (CreatingFolder (folderPath @ ''/'')) w0;
          path = getFileBreadcrumbs (folderPath @ ''/'')
      in and_then
           (case folders path of
              None \<Rightarrow> (Inr (), logger LDebug NoNeedToChangeDir w)
            | Some fs \<Rightarrow>
                ftp env (EnsureDir (join_slash fs))
                  (logger LDebug (CreatingFolderDir (join_slash fs)) w))
           (\<lambda>w. and_then (upDir env (map_option length (folders path)) w)
              (\<lambda>w. (Inr (), logger LDebug Completed w))))"

text \<open>The \<open>try\<close>/\<open>catch\<close> of \<open>removeFolder\<close>, lines 216-230.\<close>

definition try_removeDir :: "env \<Rightarrow> string \<Rightarrow> world \<Rightarrow> (exn + unit) \<times> world" where
  "try_removeDir env dir w =
     (case ftp env (RemoveDir dir) (logger LDebug (RemovingFolderDir dir) w) of
        (Inr u, w') \<Rightarrow> (Inr (), w')
      | (Inl error, w') \<Rightarrow>
          if code error = Some (FileNotFoundOrNoAccess env)
          then (Inr (), logger LDebug FolderDoesNotExist w')
          else (Inl error, w'))"

text \<open>\<open>removeFolder\<close>, lines 207-237.\<close>

definition removeFolder :: "env \<Rightarrow> string \<Rightarrow> world \<Rightarrow> (exn + unit) \<times> world" where
  "removeFolder env folderPath w0 =
     (let w = logger LAll (RemovingFolder (folderPath @ ''/'')) w0;
          path = getFileBreadcrumbs (folderPath @ ''/'')
      in and_then
           (case folders path of
              None \<Rightarrow> (Inr (), logger LDebug NoNeedToChangeDir w)
            | Some fs \<Rightarrow> try_removeDir env (join_slash fs @ ''/'') w)
           (\<lambda>w. and_then (upDir env (map_option length (folders path)) w)
              (\<lambda>w. (Inr (), logger LInfo Completed w))))"

text \<open>The \<open>try\<close>/\<open>catch\<close> of \<open>removeFile\<close>, lines 254-269.\<close>

definition try_remove :: "env \<Rightarrow> string \<Rightarrow> world \<Rightarrow> (exn + unit) \<times> world" where
  "try_remove env f w =
     (case ftp env (Remove f) (logger LDebug (RemovingFileName f) w) of
        (Inr u, w') \<Rightarrow> (Inr (), logger LDebug FileRemoved w')
      | (Inl error, w') \<Rightarrow>
          if code error = Some (FileNotFoundOrNoAccess env)
          then (Inr (), logger LInfo FileDoesNotExist w')
          else (Inl error, w'))"

text \<open>\<open>removeFile\<close>, lines 239-276.\<close>

definition removeFile :: "env \<Rightarrow> string \<Rightarrow> world \<Rightarrow> (exn + unit) \<times> world" where
  "removeFile env filePath w0 =
     (let w = logger LAll (RemovingFile filePath) w0;
          path = getFileBreadcrumbs filePath
      in and_then
           (case folders path of
              None \<Rightarrow> (Inr (), logger LDebug NoNeedToChangeDir w)
            | Some fs \<Rightarrow>
                and_then (ftp env (EnsureDir (join_slash fs))
                            (logger LDebug (ChangingDirTo (join_slash fs)) w))
                  (\<lambda>w. (Inr (), logger LDebug DirChanged w)))
           (\<lambda>w. and_then
              (case file_part path of
                 None \<Rightarrow> (Inr (), w)
               | Some f \<Rightarrow> try_remove env f w)
              (\<lambda>w. and_then (upDir env (map_option length (folders path)) w)
                 (\<lambda>w. (Inr (), logger LInfo CompletedUpper w)))))"

section \<open>The orchestrator\<close>

text \<open>\<open>downloadFileList\<close>, lines 96-121.\<close>

definition downloadFileList :: "env \<Rightarrow> string \<Rightarrow> world \<Rightarrow> (exn + IFileList) \<times> world" where
  "downloadFileList env p w =
     (let r = client env (trace w) (DownloadTo p);
          w' = w\<lparr>trace := trace w @ [Ftp (DownloadTo p) r]\<rparr>
      in case r of
           Some reason \<Rightarrow> (Inl (CantOpen reason), w')
         | None \<Rightarrow>
             (case json_parse env (download_data env (trace w) p) of
                Inl e \<Rightarrow> (Inl e, w')
              | Inr v \<Rightarrow> (Inr v, w')))"

text \<open>A \<open>for (const file of ...) await f(client, file.name, logger)\<close> loop.\<close>

fun for_each ::
  "(string \<Rightarrow> world \<Rightarrow> (exn + unit) \<times> world) \<Rightarrow> Record list \<Rightarrow> world \<Rightarrow> (exn + unit) \<times> world" where
  "for_each f [] w = (Inr (), w)"
| "for_each f (item # rest) w = and_then (f (rec_name item) w) (for_each f rest)"

text \<open>The five loops of \<open>deploy\<close>, lines 357-381.\<close>

definition deploy_phases ::
  "env \<Rightarrow> IFtpDeployArguments \<Rightarrow> DiffResult \<Rightarrow> world \<Rightarrow> (exn + unit) \<times> world" where
  "deploy_phases env args diffs w =
     and_then
       (for_each (createFolder env) (filter (\<lambda>item. rec_type item = Folder) (upload diffs)) w)
       (\<lambda>w. and_then
          (for_each (uploadFile env)
             (filter (\<lambda>item. rec_name item \<noteq> state_name args)
                (filter (\<lambda>item. rec_type item = File) (upload diffs))) w)
          (\<lambda>w. and_then
             (for_each (uploadFile env)
                (filter (\<lambda>item. rec_name item \<noteq> state_name args)
                   (filter (\<lambda>item. rec_type item = File) (replace diffs))) w)
             (\<lambda>w. and_then
                (for_each (removeFile env)
                   (filter (\<lambda>item. rec_type item = File) (delete diffs)) w)
                (for_each (removeFolder env)
                   (filter (\<lambda>item. rec_type item = Folder) (delete diffs))))))"

text \<open>The body of the \<open>try\<close> at lines 349-386: the loops, then the upload of the state file.\<close>

definition deploy_sync ::
  "env \<Rightarrow> IFtpDeployArguments \<Rightarrow> DiffResult \<Rightarrow> world \<Rightarrow> (exn + unit) \<times> world" where
  "deploy_sync env args diffs w0 =
     (let totalCount = length (delete diffs) + length (upload diffs) + length (replace diffs);
          w = logger LAll Rule
                (logger LAll (Sizes (sizeUpload diffs) (sizeDelete diffs) (sizeReplace diffs))
                   (logger LAll (MakingChanges totalCount) (logger LAll Rule w0)))
      in and_then (deploy_phases env args diffs w)
           (\<lambda>w. ftp env (UploadFrom (state_name args) (state_name args))
                   (logger LAll (SyncComplete (state_name args)) (logger LAll Rule w))))"

text \<open>
  How a block of \<open>deploy\<close> that catches its exceptions ends: it falls through to the
  statements after it, or it has executed the \<open>return\<close> of line 390.
\<close>

datatype completion = Normal | Returned

text \<open>The \<open>try\<close>/\<open>catch\<close> of lines 349-394.\<close>

definition deploy_try_sync ::
  "env \<Rightarrow> IFtpDeployArguments \<Rightarrow> DiffResult \<Rightarrow> world \<Rightarrow> completion \<times> world" where
  "deploy_try_sync env args diffs w =
     (case deploy_sync env args diffs w of
        (Inr u, w') \<Rightarrow> (Normal, w')
      | (Inl e, w') \<Rightarrow>
          if code e = Some 553 then (Returned, logger LWarn Error553 w')
          else (Normal, logger LWarn (ErrorCaught e) w'))"

text \<open>The empty server state of lines 335-340.\<close>

definition empty_state :: "env \<Rightarrow> IFileList" where
  "empty_state env =
     \<lparr>description = syncFileDescription env, version = ''1.0.0'',
      generatedTime = getTime env, data = []\<rparr>"

definition no_server_state :: "env \<Rightarrow> IFtpDeployArguments \<Rightarrow> world \<Rightarrow> IFileList \<times> world" where
  "no_server_state env args w =
     (empty_state env,
      logger LAll SomethingIsWrong
        (logger LAll FirstPublishSlow
           (logger LAll (NoFileOnServer (state_name args)) (logger LAll Rule w))))"

text \<open>
  The \<open>try\<close>/\<open>catch\<close> of lines 314-341, which sets \<open>serverFiles\<close>. With the clean-slate flag
  the \<open>try\<close> block always ends in an exception: the one of \<open>clearWorkingDir\<close>, or
  \<open>new Error("nope")\<close>.
\<close>

definition fetch_server_files :: "env \<Rightarrow> IFtpDeployArguments \<Rightarrow> world \<Rightarrow> IFileList \<times> world" where
  "fetch_server_files env args w =
     (if dangerous_clean_slate args then
        (case ftp env ClearWorkingDir (logger LAll RemovingAll (logger LAll Rule w)) of
           (Inl e, w') \<Rightarrow> no_server_state env args w'
         | (Inr u, w') \<Rightarrow> no_server_state env args (logger LAll ClearComplete w'))
      else
        (case downloadFileList env (state_name args) w of
           (Inl e, w') \<Rightarrow> no_server_state env args w'
         | (Inr serverFiles, w') \<Rightarrow>
             (serverFiles,
              logger LAll (LastPublished (generatedTime serverFiles)) (logger LAll Rule w'))))"

text \<open>Lines 343-395, with \<open>serverFiles\<close> set, and the \<open>catch\<close> of lines 398-404.\<close>

definition deploy_diff ::
  "env \<Rightarrow> IFtpDeployArguments \<Rightarrow> IFileList \<Rightarrow> IFileList \<Rightarrow> world \<Rightarrow> completion \<times> world" where
  "deploy_diff env args localFiles serverFiles w =
     (case getDiffs env localFiles serverFiles of
        Inr diffs \<Rightarrow> deploy_try_sync env args diffs w
      | Inl error \<Rightarrow>
          (Normal,
           logger LWarn (Thrown error)
             (if code error = Some (FileNotFoundOrNoAccess env)
              then logger LWarn CouldntFindFile w else w)))"

text \<open>The \<open>try\<close>/\<open>catch\<close> of lines 311-404.\<close>

definition deploy_connected ::
  "env \<Rightarrow> IFtpDeployArguments \<Rightarrow> IFileList \<Rightarrow> world \<Rightarrow> completion \<times> world" where
  "deploy_connected env args localFiles w =
     (case fetch_server_files env args w of
        (serverFiles, w') \<Rightarrow> deploy_diff env args localFiles serverFiles w')"

text \<open>The \<open>try\<close>/\<open>catch\<close> of lines 301-409.\<close>

definition deploy_session ::
  "env \<Rightarrow> IFtpDeployArguments \<Rightarrow> IFileList \<Rightarrow> world \<Rightarrow> completion \<times> world" where
  "deploy_session env args localFiles w =
     (case ftp env (Access (server args) (username args) (password args)) w of
        (Inl err, w') \<Rightarrow> (Normal, logger LWarn (Thrown err) w')
      | (Inr u, w') \<Rightarrow> deploy_connected env args localFiles w')"

text \<open>
  Lines 410-421: the client is closed, the upload speed is computed (line 414) and the
  times are reported.
\<close>

definition deploy_finish :: "env \<Rightarrow> world \<Rightarrow> unit promise \<times> world" where
  "deploy_finish env w =
     (let w1 = w\<lparr>trace := trace w @ [Ftp Close None]\<rparr>
      in case closing_report env (trace w1) of
           Some e \<Rightarrow> (Rejected e, w1)
         | None \<Rightarrow>
             (Resolved (),
              logger LAll Rule (logger LAll TotalTime (logger LAll Rule
                (logger LAll TimeDeploying (logger LAll TimeConnecting (logger LAll TimeHashing
                   (logger LAll Rule w1))))))))"

text \<open>
  \<open>deploy\<close>, lines 279-422; \<open>deploy_welcome\<close> is its lines 282-286. The timers only
  feed the closing report and are left out. An exception of \<open>getLocalFiles\<close>, of
  \<open>writeFileSync\<close> or of the closing report is outside every \<open>try\<close> and rejects the
  promise of \<open>deploy\<close>.
\<close>

definition deploy_welcome :: "world \<Rightarrow> world" where
  "deploy_welcome w =
     logger LAll GiveStar (logger LAll SupportIt (logger LAll Rule
       (logger LAll Welcome (logger LAll Rule w))))"

definition deploy :: "env \<Rightarrow> IFtpDeployArguments \<Rightarrow> world \<Rightarrow> unit promise \<times> world" where
  "deploy env args w0 =
     (case getLocalFiles env args (deploy_welcome w0) of
        (Unsettled, w1) \<Rightarrow> (Unsettled, w1)
      | (Rejected e, w1) \<Rightarrow> (Rejected e, w1)
      | (Resolved localFiles, w1) \<Rightarrow>
          (case writeFileSync env (''./'' @ state_name args) (json_stringify env localFiles) of
             Some e \<Rightarrow> (Rejected e, w1)
           | None \<Rightarrow>
               (case deploy_session env args localFiles
                       (w1\<lparr>trace := trace w1 @
                              [WriteFile (''./'' @ state_name args) (json_stringify env localFiles)]\<rparr>) of
                  (Returned, w2) \<Rightarrow> (Resolved (), w2)
                | (Normal, w2) \<Rightarrow> deploy_finish env w2)))"

section \<open>The diff engine\<close>

text \<open>
  Modelled from the spec: the Diff Engine. \<open>main.ts\<close> imports \<open>HashDiff\<close> from
  \<open>./HashDiff\<close>, which is not among the sources; \<open>diff\<close> follows section 4.4 of the
  specification: a path-keyed map for each inventory, every path of the union of the
  two key sets classified, the lists in ascending order of path, and the byte totals
  summed over the file entries of each list.
\<close>

record EditScript =
  toUpload :: "Record list"
  toReplace :: "Record list"
  toDelete :: "Record list"
  bytesUpload :: nat
  bytesReplace :: nat
  bytesDelete :: nat

text \<open>Modelled from the spec: the path-keyed map of an inventory.\<close>

definition path_map :: "Record list \<Rightarrow> string \<Rightarrow> Record option" where
  "path_map entries = map_of (map (\<lambda>r. (rec_name r, r)) entries)"

text \<open>Modelled from the spec: the union of the two key sets, in ascending order.\<close>

definition all_paths :: "Record list \<Rightarrow> Record list \<Rightarrow> string list" where
  "all_paths previous current = sort (remdups (map rec_name previous @ map rec_name current))"

text \<open>
  Modelled from the spec: the classification of one path, as the entries it adds to
  \<open>toUpload\<close>, \<open>toReplace\<close> and \<open>toDelete\<close>.
\<close>

definition classify :: "Record option \<Rightarrow> Record option \<Rightarrow> Record list \<times> Record list \<times> Record list" where
  "classify p c =
     (case (p, c) of
        (None, None) \<Rightarrow> ([], [], [])
      | (None, Some new) \<Rightarrow> ([new], [], [])
      | (Some old, None) \<Rightarrow> ([], [], [old])
      | (Some old, Some new) \<Rightarrow>
          if rec_type old = File \<and> rec_type new = File then
            (if rec_hash old \<noteq> rec_hash new \<or> rec_size old \<noteq> rec_size new
             then ([], [new], []) else ([], [], []))
          else if rec_type old = Folder \<and> rec_type new = Folder then ([], [], [])
          else ([new], [], [old]))"

text \<open>Modelled from the spec: the byte total of a list, summed over its file entries.\<close>

definition bytes_of :: "Record list \<Rightarrow> nat" where
  "bytes_of entries =
     sum_list (map (\<lambda>r. case rec_size r of None \<Rightarrow> 0 | Some n \<Rightarrow> n)
                 (filter (\<lambda>r. rec_type r = File) entries))"

text \<open>
  Modelled from the spec: \<open>diff(previous, current)\<close> of section 4.4, in place of
  \<open>HashDiff.getDiffs\<close>, which is not among the sources.
\<close>

definition diff :: "IFileList \<Rightarrow> IFileList \<Rightarrow> EditScript" where
  "diff previous current =
     (let verdicts = map (\<lambda>p. classify (path_map (data previous) p) (path_map (data current) p))
                       (all_paths (data previous) (data current));
          ups = concat (map fst verdicts);
          reps = concat (map (\<lambda>v. fst (snd v)) verdicts);
          dels = concat (map (\<lambda>v. snd (snd v)) verdicts)
      in \<lparr>toUpload = ups, toReplace = reps, toDelete = dels,
          bytesUpload = bytes_of ups, bytesReplace = bytes_of reps, bytesDelete = bytes_of dels\<rparr>)"

text \<open>
  Modelled from the spec: the edit script in the shape \<open>deploy\<close> reads, for
  \<open>getDiffs(localFiles, serverFiles)\<close>.
\<close>

definition spec_getDiffs :: "IFileList \<Rightarrow> IFileList \<Rightarrow> exn + DiffResult" where
  "spec_getDiffs localFiles serverFiles =
     (let s = diff serverFiles localFiles
      in Inr \<lparr>upload = toUpload s, delete = toDelete s, replace = toReplace s,
              sizeUpload = bytesUpload s, sizeDelete = bytesDelete s,
              sizeReplace = bytesReplace s\<rparr>)"

section \<open>The remote calls of a run, as a plan\<close>

text \<open>
  A step is a call on the client together with a flag: whether the reply code
  \<open>FileNotFoundOrNoAccess\<close> is tolerated on it. \<open>run_steps\<close> issues the steps in order and
  stops at the first failure that is not tolerated.
\<close>

fun run_steps :: "env \<Rightarrow> (ftp_op \<times> bool) list \<Rightarrow> event list \<Rightarrow> (exn + unit) \<times> event list" where
  "run_steps env [] tr = (Inr (), tr)"
| "run_steps env ((op, tolerant) # steps) tr =
     (case client env tr op of
        None \<Rightarrow> run_steps env steps (tr @ [Ftp op None])
      | Some e \<Rightarrow>
          if tolerant \<and> code e = Some (FileNotFoundOrNoAccess env)
          then run_steps env steps (tr @ [Ftp op (Some e)])
          else (Inl e, tr @ [Ftp op (Some e)]))"

text \<open>The steps into the folders of a path and back to the root.\<close>

definition enter_steps :: "IFilePath \<Rightarrow> (ftp_op \<times> bool) list" where
  "enter_steps p = (case folders p of None \<Rightarrow> [] | Some fs \<Rightarrow> [(EnsureDir (join_slash fs), False)])"

definition leave_steps :: "IFilePath \<Rightarrow> (ftp_op \<times> bool) list" where
  "leave_steps p = (case folders p of None \<Rightarrow> [] | Some fs \<Rightarrow> replicate (length fs) (Cdup, False))"

definition upload_steps :: "string \<Rightarrow> (ftp_op \<times> bool) list" where
  "upload_steps filePath =
     (let p = getFileBreadcrumbs filePath
      in enter_steps p
         @ (case file_part p of None \<Rightarrow> [] | Some f \<Rightarrow> [(UploadFrom filePath f, False)])
         @ leave_steps p)"

definition create_steps :: "string \<Rightarrow> (ftp_op \<times> bool) list" where
  "create_steps folderPath =
     (let p = getFileBreadcrumbs (folderPath @ ''/'') in enter_steps p @ leave_steps p)"

definition remove_file_steps :: "string \<Rightarrow> (ftp_op \<times> bool) list" where
  "remove_file_steps filePath =
     (let p = getFileBreadcrumbs filePath
      in enter_steps p
         @ (case file_part p of None \<Rightarrow> [] | Some f \<Rightarrow> [(Remove f, True)])
         @ leave_steps p)"

definition remove_folder_steps :: "string \<Rightarrow> (ftp_op \<times> bool) list" where
  "remove_folder_steps folderPath =
     (let p = getFileBreadcrumbs (folderPath @ ''/'')
      in (case folders p of None \<Rightarrow> [] | Some fs \<Rightarrow> [(RemoveDir (join_slash fs @ ''/''), True)])
         @ leave_steps p)"

definition names_of :: "rtype \<Rightarrow> Record list \<Rightarrow> string list" where
  "names_of t entries = map rec_name (filter (\<lambda>item. rec_type item = t) entries)"

text \<open>
  The plan of the five phases as the specification words it: every folder of
  \<open>toUpload\<close> created, every file of \<open>toUpload\<close> uploaded, every file of \<open>toReplace\<close>
  uploaded, every file of \<open>toDelete\<close> removed, every folder of \<open>toDelete\<close> removed, and
  then the state file uploaded.
\<close>

definition stated_steps :: "string \<Rightarrow> DiffResult \<Rightarrow> (ftp_op \<times> bool) list" where
  "stated_steps stateName diffs =
     concat (map create_steps (names_of Folder (upload diffs)))
     @ concat (map upload_steps (names_of File (upload diffs)))
     @ concat (map upload_steps (names_of File (replace diffs)))
     @ concat (map remove_file_steps (names_of File (delete diffs)))
     @ concat (map remove_folder_steps (names_of Folder (delete diffs)))
     @ [(UploadFrom stateName stateName, False)]"

text \<open>
  The same plan with the entry named as the state file left out of the two upload
  phases.
\<close>

definition phase_steps :: "string \<Rightarrow> DiffResult \<Rightarrow> (ftp_op \<times> bool) list" where
  "phase_steps stateName diffs =
     concat (map create_steps (names_of Folder (upload diffs)))
     @ concat (map upload_steps (filter (\<lambda>n. n \<noteq> stateName) (names_of File (upload diffs))))
     @ concat (map upload_steps (filter (\<lambda>n. n \<noteq> stateName) (names_of File (replace diffs))))
     @ concat (map remove_file_steps (names_of File (delete diffs)))
     @ concat (map remove_folder_steps (names_of Folder (delete diffs)))"

definition sync_steps :: "string \<Rightarrow> DiffResult \<Rightarrow> (ftp_op \<times> bool) list" where
  "sync_steps stateName diffs = phase_steps stateName diffs @ [(UploadFrom stateName stateName, False)]"

text \<open>
  A failed call is fatal unless it is one of the two calls of the bootstrap, whose
  failure means an empty server state, or a removal answered with
  \<open>FileNotFoundOrNoAccess\<close>.
\<close>

fun is_removal :: "ftp_op \<Rightarrow> bool" where
  "is_removal (Remove f) = True"
| "is_removal (RemoveDir d) = True"
| "is_removal op = False"

fun is_bootstrap :: "ftp_op \<Rightarrow> bool" where
  "is_bootstrap ClearWorkingDir = True"
| "is_bootstrap (DownloadTo p) = True"
| "is_bootstrap op = False"

fun fatal :: "env \<Rightarrow> event \<Rightarrow> bool" where
  "fatal env (Ftp op (Some e)) =
     (\<not> is_bootstrap op \<and> \<not> (is_removal op \<and> code e = Some (FileNotFoundOrNoAccess env)))"
| "fatal env (Ftp op None) = False"
| "fatal env (WriteFile p c) = False"

section \<open>Predicates on runs\<close>

text \<open>
  A block of the program follows a plan when, from every state of the world, it ends
  as \<open>run_steps\<close> does on the plan and leaves the same record of calls.
\<close>

definition refines :: "env \<Rightarrow> (world \<Rightarrow> (exn + unit) \<times> world) \<Rightarrow> (ftp_op \<times> bool) list \<Rightarrow> bool" where
  "refines env f steps \<longleftrightarrow>
     (\<forall>w. fst (f w) = fst (run_steps env steps (trace w))
        \<and> trace (snd (f w)) = snd (run_steps env steps (trace w)))"

text \<open>A record of events without a fatal failure.\<close>

definition calm :: "env \<Rightarrow> event list \<Rightarrow> bool" where
  "calm env evs = list_all (\<lambda>ev. \<not> fatal env ev) evs"

text \<open>A step of a plan tolerates the not-found code exactly on a removal.\<close>

definition good_step :: "ftp_op \<times> bool \<Rightarrow> bool" where
  "good_step s = (snd s = is_removal (fst s) \<and> \<not> is_bootstrap (fst s))"

text \<open>
  How the events added by a block relate to its result: a normal end has added no fatal
  failure, and an exception \<open>e\<close> is the outcome of the last call, the only fatal one.
\<close>

definition ended :: "env \<Rightarrow> exn + unit \<Rightarrow> event list \<Rightarrow> bool" where
  "ended env r added =
     (case r of
        Inr u \<Rightarrow> calm env added
      | Inl e \<Rightarrow> added \<noteq> [] \<and> calm env (butlast added) \<and> fatal env (last added)
                 \<and> (case last added of Ftp op x \<Rightarrow> x = Some e | WriteFile p c \<Rightarrow> False))"

text \<open>
  The error \<open>e\<close> is on the log at warn level: by \<open>logger.warn(err)\<close> of lines 403 and 408,
  by the line of 393 that prints the caught value, or, for the reply code 553, by the
  fixed line of 389.
\<close>

definition reported :: "exn \<Rightarrow> world \<Rightarrow> bool" where
  "reported e w =
     ((LWarn, Thrown e) \<in> set (logs w) \<or> (LWarn, ErrorCaught e) \<in> set (logs w)
      \<or> (code e = Some 553 \<and> (LWarn, Error553) \<in> set (logs w)))"

text \<open>
  What holds of a block of \<open>deploy\<close> that catches its exceptions: the events it added
  hold no fatal failure and it fell through, or they end in the only fatal failure,
  which is then reported.
\<close>

definition settled :: "env \<Rightarrow> world \<Rightarrow> completion \<times> world \<Rightarrow> bool" where
  "settled env w res =
     (\<exists>added. trace (snd res) = trace w @ added
        \<and> (calm env added \<and> fst res = Normal
           \<or> added \<noteq> [] \<and> calm env (butlast added) \<and> fatal env (last added)
             \<and> (\<exists>op e. last added = Ftp op (Some e) \<and> reported e (snd res))))"

text \<open>The promise of \<open>deploy\<close> resolves when the closing report does not throw.\<close>

definition resolves_after :: "env \<Rightarrow> unit promise \<times> world \<Rightarrow> bool" where
  "resolves_after env res =
     (closing_report env (trace (snd res)) = None \<longrightarrow> fst res = Resolved ())"

section \<open>Concrete inputs\<close>

text \<open>
  A run in which every collaborator answers: the matcher reports the patterns equal to
  the path, the walker finds one folder and one file in it, the hash is the content
  itself, the server holds no state file, and the client carries out every other call.
\<close>

definition exact_match :: "string \<Rightarrow> string list \<Rightarrow> string list" where
  "exact_match p patterns = filter (\<lambda>q. q = p) patterns"

definition env0 :: env where
  "env0 =
     \<lparr>multiMatch = exact_match,
      digest_hex = (\<lambda>alg content. content),
      createReadStream = (\<lambda>f. Inr [Data ''ab'', Data ''cd'', End]),
      readdir = Inr [\<lparr>path = ''docs'', kind = Directory, stat_size = 0\<rparr>,
                     \<lparr>path = ''docs/a.txt'', kind = RegularFile, stat_size = 4\<rparr>],
      writeFileSync = (\<lambda>p c. None),
      json_stringify = (\<lambda>l. ''{}''),
      json_parse = (\<lambda>s. Inl (JsError ''Unexpected end of JSON input'')),
      getTime = 0,
      client = (\<lambda>tr op. case op of DownloadTo p \<Rightarrow> Some (FTPError 550) | _ \<Rightarrow> None),
      download_data = (\<lambda>tr p. []),
      getDiffs = spec_getDiffs,
      closing_report = (\<lambda>tr. None),
      syncFileDescription = ''sync state'',
      FileNotFoundOrNoAccess = 550\<rparr>"

definition args0 :: IFtpDeployArguments where
  "args0 =
     \<lparr>server = ''ftp.example.org'', username = ''user'', password = ''secret'',
      state_name = ''.sync-state.json'', log_level = ''info'',
      dangerous_clean_slate = False,
      include_arg = Some [''docs''], exclude = Some [''node_modules'']\<rparr>"

definition w_init :: world where
  "w_init = \<lparr>trace = [], logs = []\<rparr>"

definition file_entry :: "string \<Rightarrow> nat \<Rightarrow> string \<Rightarrow> Record" where
  "file_entry n s h = \<lparr>rec_type = File, rec_name = n, rec_size = Some s, rec_hash = Some h\<rparr>"

definition folder_entry :: "string \<Rightarrow> Record" where
  "folder_entry n = \<lparr>rec_type = Folder, rec_name = n, rec_size = None, rec_hash = None\<rparr>"

text \<open>The inventory that \<open>getLocalFiles\<close> builds in this run, and its diff with no server state.\<close>

definition local0 :: IFileList where
  "local0 =
     \<lparr>description = ''sync state'', version = ''1.0.0'', generatedTime = 0,
      data = [folder_entry ''docs'', file_entry ''docs/a.txt'' 4 ''abcd'']\<rparr>"

definition diffs0 :: DiffResult where
  "diffs0 =
     \<lparr>upload = [folder_entry ''docs'', file_entry ''docs/a.txt'' 4 ''abcd''],
      delete = [], replace = [],
      sizeUpload = 4, sizeDelete = 0, sizeReplace = 0\<rparr>"

text \<open>A file whose stream reports that it cannot be opened.\<close>

definition env_unreadable :: env where
  "env_unreadable =
     env0\<lparr>createReadStream := (\<lambda>f. Inr [StreamError (JsError ''ENOENT: no such file or directory'')])\<rparr>"

text \<open>
  An edit script that lists the state file as new and \<open>b.txt\<close> as changed, and one that
  lists the state file as gone: the server state was written by a run that found the
  state file of the run before in the local tree, and the present run starts from a
  tree without it.
\<close>

definition diffs_state_new :: DiffResult where
  "diffs_state_new =
     \<lparr>upload = [file_entry ''.sync-state.json'' 2 ''h0''], delete = [],
      replace = [file_entry ''b.txt'' 5 ''h1''],
      sizeUpload = 2, sizeDelete = 0, sizeReplace = 5\<rparr>"

definition diffs_state_gone :: DiffResult where
  "diffs_state_gone =
     \<lparr>upload = [], delete = [file_entry ''.sync-state.json'' 2 ''h0''], replace = [],
      sizeUpload = 0, sizeDelete = 2, sizeReplace = 0\<rparr>"

text \<open>
  A server whose state file lists the local tree and the state file itself, as a run
  leaves it that found the state file of the run before among the local files.
\<close>

definition stale_state :: IFileList where
  "stale_state =
     \<lparr>description = ''sync state'', version = ''1.0.0'', generatedTime = 0,
      data = [folder_entry ''docs'', file_entry ''docs/a.txt'' 4 ''abcd'',
              file_entry ''.sync-state.json'' 2 ''h0'']\<rparr>"

definition env_stale :: env where
  "env_stale = env0\<lparr>client := (\<lambda>tr op. None), json_parse := (\<lambda>s. Inr stale_state)\<rparr>"

text \<open>
  A server on which the file to remove is already gone (reply 550), one that refuses
  the removal for another reason (reply 450), one that refuses to store \<open>a.txt\<close>
  (reply 552), and one that refuses the login (reply 530).
\<close>

definition diffs_old :: DiffResult where
  "diffs_old =
     \<lparr>upload = [], delete = [file_entry ''old.txt'' 3 ''h2''], replace = [],
      sizeUpload = 0, sizeDelete = 3, sizeReplace = 0\<rparr>"

definition env_gone :: env where
  "env_gone =
     env0\<lparr>client := (\<lambda>tr op. case op of Remove f \<Rightarrow> Some (FTPError 550)
                                      | RemoveDir d \<Rightarrow> Some (FTPError 550)
                                      | _ \<Rightarrow> None)\<rparr>"

definition env_denied :: env where
  "env_denied =
     env0\<lparr>client := (\<lambda>tr op. case op of Remove f \<Rightarrow> Some (FTPError 450)
                                      | RemoveDir d \<Rightarrow> Some (FTPError 450)
                                      | _ \<Rightarrow> None)\<rparr>"

definition env_full :: env where
  "env_full =
     env0\<lparr>client := (\<lambda>tr op. case op of DownloadTo p \<Rightarrow> Some (FTPError 550)
                                      | UploadFrom l r \<Rightarrow> if r = ''a.txt'' then Some (FTPError 552) else None
                                      | _ \<Rightarrow> None)\<rparr>"

definition env_refused :: env where
  "env_refused =
     env0\<lparr>client := (\<lambda>tr op. case op of Access h u p \<Rightarrow> Some (FTPError 530) | _ \<Rightarrow> None)\<rparr>"

section \<open>The program follows its plan\<close>

lemma trace_logger [simp]: "trace (logger l m w) = trace w"
  by (simp add: logger_def)

lemma logs_logger [simp]: "logs (logger l m w) = logs w @ [(l, m)]"
  by (simp add: logger_def)

lemma and_then_Inl: "and_then (Inl e, w) f = (Inl e, w)"
  by (simp add: and_then_def)

lemma and_then_Inr: "and_then (Inr u, w) f = f w"
  by (simp add: and_then_def)

lemmas run_defs = and_then_Inl and_then_Inr ftp_def upDir_def logger_def try_remove_def try_removeDir_def

lemma run_steps_append:
  "run_steps env (p @ q) tr =
     (case run_steps env p tr of (Inl e, tr') \<Rightarrow> (Inl e, tr') | (Inr u, tr') \<Rightarrow> run_steps env q tr')"
  by (induction env p tr rule: run_steps.induct) (auto split: option.splits)

lemma refines_and_then:
  assumes "refines env f p" and "refines env g q"
  shows "refines env (\<lambda>w. and_then (f w) g) (p @ q)"
  unfolding refines_def
proof
  fix w
  obtain r w' where fw: "f w = (r, w')" by (cases "f w")
  from assms(1) fw have p: "run_steps env p (trace w) = (r, trace w')"
    by (metis refines_def fst_conv snd_conv prod.collapse)
  show "fst (and_then (f w) g) = fst (run_steps env (p @ q) (trace w)) \<and>
        trace (snd (and_then (f w) g)) = snd (run_steps env (p @ q) (trace w))"
  proof (cases r)
    case (Inl e)
    then show ?thesis by (simp add: and_then_def fw run_steps_append p)
  next
    case (Inr u)
    with assms(2) show ?thesis by (simp add: and_then_def fw run_steps_append p refines_def)
  qed
qed

lemma refines_silent:
  assumes "\<And>w. trace (h w) = trace w"
  shows "refines env (\<lambda>w. (Inr (), h w)) []"
  by (simp add: refines_def assms)

lemma refines_after:
  assumes "refines env f p" and "\<And>w. trace (h w) = trace w"
  shows "refines env (\<lambda>w. f (h w)) p"
  using assms by (simp add: refines_def)

lemma refines_ftp: "refines env (ftp env op) [(op, False)]"
  by (simp add: refines_def ftp_def Let_def split: option.splits)

lemma refines_cdups: "refines env (cdups env n) (replicate n (Cdup, False))"
proof (induction n)
  case 0
  show ?case by (simp add: refines_def)
next
  case (Suc n)
  have "refines env (\<lambda>w. and_then (ftp env Cdup w) (cdups env n)) ([(Cdup, False)] @ replicate n (Cdup, False))"
    by (rule refines_and_then [OF refines_ftp Suc])
  then show ?case by (simp add: refines_def)
qed

lemma refines_try_remove: "refines env (try_remove env f) [(Remove f, True)]"
  by (simp add: refines_def try_remove_def ftp_def Let_def split: option.splits)

lemma refines_try_removeDir: "refines env (try_removeDir env d) [(RemoveDir d, True)]"
  by (simp add: refines_def try_removeDir_def ftp_def Let_def split: option.splits)

lemma refines_upDir: "refines env (upDir env (map_option length (folders p))) (leave_steps p)"
  using refines_cdups [of env]
  by (simp add: refines_def upDir_def leave_steps_def split: option.splits)

lemma refines_done: "refines env (\<lambda>w. and_then (upDir env (map_option length (folders p)) w) (\<lambda>w. (Inr (), logger l m w)))
   (leave_steps p)"
  using refines_and_then [OF refines_upDir refines_silent, of "logger l m" env p] by simp

lemma refines_enter:
  "refines env
     (\<lambda>w. case folders p of
             None \<Rightarrow> (Inr (), logger LDebug NoNeedToChangeDir w)
           | Some fs \<Rightarrow>
               and_then (ftp env (EnsureDir (join_slash fs))
                           (logger LDebug (ChangingDirTo (join_slash fs)) w))
                 (\<lambda>w. (Inr (), logger LDebug DirChanged w)))
     (enter_steps p)"
proof (cases "folders p")
  case None
  then show ?thesis by (simp add: enter_steps_def refines_def)
next
  case (Some fs)
  have "refines env (\<lambda>w. ftp env (EnsureDir (join_slash fs)) (logger LDebug (ChangingDirTo (join_slash fs)) w))
          [(EnsureDir (join_slash fs), False)]"
    by (rule refines_after [OF refines_ftp]) simp
  from refines_and_then [OF this refines_silent, of "logger LDebug DirChanged"]
  show ?thesis using Some by (simp add: enter_steps_def)
qed

lemma refines_uploadFile: "refines env (uploadFile env filePath) (upload_steps filePath)"
proof -
  define p where "p = getFileBreadcrumbs filePath"
  have mid: "refines env
      (\<lambda>w. case file_part p of
              None \<Rightarrow> (Inr (), w)
            | Some f \<Rightarrow>
                and_then (ftp env (UploadFrom filePath f) (logger LDebug UploadStarted w))
                  (\<lambda>w. (Inr (), logger LDebug FileUploaded w)))
      (case file_part p of None \<Rightarrow> [] | Some f \<Rightarrow> [(UploadFrom filePath f, False)])"
  proof (cases "file_part p")
    case None
    then show ?thesis by (simp add: refines_def)
  next
    case (Some f)
    have "refines env (\<lambda>w. ftp env (UploadFrom filePath f) (logger LDebug UploadStarted w))
            [(UploadFrom filePath f, False)]"
      by (rule refines_after [OF refines_ftp]) simp
    from refines_and_then [OF this refines_silent, of "logger LDebug FileUploaded"]
    show ?thesis using Some by simp
  qed
  have "refines env
      (\<lambda>w. and_then
         (case folders p of
            None \<Rightarrow> (Inr (), logger LDebug NoNeedToChangeDir w)
          | Some fs \<Rightarrow>
              and_then (ftp env (EnsureDir (join_slash fs))
                          (logger LDebug (ChangingDirTo (join_slash fs)) w))
                (\<lambda>w. (Inr (), logger LDebug DirChanged w)))
         (\<lambda>w. and_then
            (case file_part p of
               None \<Rightarrow> (Inr (), w)
             | Some f \<Rightarrow>
                 and_then (ftp env (UploadFrom filePath f) (logger LDebug UploadStarted w))
                   (\<lambda>w. (Inr (), logger LDebug FileUploaded w)))
            (\<lambda>w. and_then (upDir env (map_option length (folders p)) w)
               (\<lambda>w. (Inr (), logger LDebug Completed w)))))
      (enter_steps p @ (case file_part p of None \<Rightarrow> [] | Some f \<Rightarrow> [(UploadFrom filePath f, False)])
         @ leave_steps p)"
    by (intro refines_and_then refines_enter mid refines_done)
  from refines_after [OF this, of "logger LAll (Uploading filePath)"]
  show ?thesis by (simp add: refines_def uploadFile_def upload_steps_def Let_def p_def)
qed

lemma refines_createFolder: "refines env (createFolder env folderPath) (create_steps folderPath)"
proof -
  define p where "p = getFileBreadcrumbs (folderPath @ ''/'')"
  have first: "refines env
      (\<lambda>w. case folders p of
              None \<Rightarrow> (Inr (), logger LDebug NoNeedToChangeDir w)
            | Some fs \<Rightarrow>
                ftp env (EnsureDir (join_slash fs))
                  (logger LDebug (CreatingFolderDir (join_slash fs)) w))
      (enter_steps p)"
  proof (cases "folders p")
    case None
    then show ?thesis by (simp add: enter_steps_def refines_def)
  next
    case (Some fs)
    have "refines env (\<lambda>w. ftp env (EnsureDir (join_slash fs)) (logger LDebug (CreatingFolderDir (join_slash fs)) w))
            [(EnsureDir (join_slash fs), False)]"
      by (rule refines_after [OF refines_ftp]) simp
    then show ?thesis using Some by (simp add: enter_steps_def)
  qed
  have "refines env
      (\<lambda>w. and_then
         (case folders p of
            None \<Rightarrow> (Inr (), logger LDebug NoNeedToChangeDir w)
          | Some fs \<Rightarrow>
              ftp env (EnsureDir (join_slash fs))
                (logger LDebug (CreatingFolderDir (join_slash fs)) w))
         (\<lambda>w. and_then (upDir env (map_option length (folders p)) w)
            (\<lambda>w. (Inr (), logger LDebug Completed w))))
      (enter_steps p @ leave_steps p)"
    by (intro refines_and_then first refines_done)
  from refines_after [OF this, of "logger LAll (CreatingFolder (folderPath @ ''/''))"]
  show ?thesis by (simp add: refines_def createFolder_def create_steps_def Let_def p_def)
qed

lemma refines_removeFolder: "refines env (removeFolder env folderPath) (remove_folder_steps folderPath)"
proof -
  define p where "p = getFileBreadcrumbs (folderPath @ ''/'')"
  have first: "refines env
      (\<lambda>w. case folders p of
              None \<Rightarrow> (Inr (), logger LDebug NoNeedToChangeDir w)
            | Some fs \<Rightarrow> try_removeDir env (join_slash fs @ ''/'') w)
      (case folders p of None \<Rightarrow> [] | Some fs \<Rightarrow> [(RemoveDir (join_slash fs @ ''/''), True)])"
  proof (cases "folders p")
    case None
    then show ?thesis by (simp add: refines_def)
  next
    case (Some fs)
    then show ?thesis using refines_try_removeDir [of env "join_slash fs @ ''/''"] by simp
  qed
  have "refines env
      (\<lambda>w. and_then
         (case folders p of
            None \<Rightarrow> (Inr (), logger LDebug NoNeedToChangeDir w)
          | Some fs \<Rightarrow> try_removeDir env (join_slash fs @ ''/'') w)
         (\<lambda>w. and_then (upDir env (map_option length (folders p)) w)
            (\<lambda>w. (Inr (), logger LInfo Completed w))))
      ((case folders p of None \<Rightarrow> [] | Some fs \<Rightarrow> [(RemoveDir (join_slash fs @ ''/''), True)])
         @ leave_steps p)"
    by (intro refines_and_then first refines_done)
  from refines_after [OF this, of "logger LAll (RemovingFolder (folderPath @ ''/''))"]
  show ?thesis by (simp add: refines_def removeFolder_def remove_folder_steps_def Let_def p_def)
qed

lemma refines_removeFile: "refines env (removeFile env filePath) (remove_file_steps filePath)"
proof -
  define p where "p = getFileBreadcrumbs filePath"
  have mid: "refines env
      (\<lambda>w. case file_part p of None \<Rightarrow> (Inr (), w) | Some f \<Rightarrow> try_remove env f w)
      (case file_part p of None \<Rightarrow> [] | Some f \<Rightarrow> [(Remove f, True)])"
  proof (cases "file_part p")
    case None
    then show ?thesis by (simp add: refines_def)
  next
    case (Some f)
    then show ?thesis using refines_try_remove [of env f] by simp
  qed
  have "refines env
      (\<lambda>w. and_then
         (case folders p of
            None \<Rightarrow> (Inr (), logger LDebug NoNeedToChangeDir w)
          | Some fs \<Rightarrow>
              and_then (ftp env (EnsureDir (join_slash fs))
                          (logger LDebug (ChangingDirTo (join_slash fs)) w))
                (\<lambda>w. (Inr (), logger LDebug DirChanged w)))
         (\<lambda>w. and_then
            (case file_part p of None \<Rightarrow> (Inr (), w) | Some f \<Rightarrow> try_remove env f w)
            (\<lambda>w. and_then (upDir env (map_option length (folders p)) w)
               (\<lambda>w. (Inr (), logger LInfo CompletedUpper w)))))
      (enter_steps p @ (case file_part p of None \<Rightarrow> [] | Some f \<Rightarrow> [(Remove f, True)])
         @ leave_steps p)"
    by (intro refines_and_then refines_enter mid refines_done)
  from refines_after [OF this, of "logger LAll (RemovingFile filePath)"]
  show ?thesis by (simp add: refines_def removeFile_def remove_file_steps_def Let_def p_def)
qed

lemma refines_for_each:
  assumes "\<And>x. refines env (f x) (g x)"
  shows "refines env (for_each f items) (concat (map g (map rec_name items)))"
proof (induction items)
  case Nil
  show ?case by (simp add: refines_def)
next
  case (Cons item rest)
  from refines_and_then [OF assms Cons, of "rec_name item"]
  show ?case by (simp add: refines_def)
qed

lemma refines_deploy_phases:
  "refines env (deploy_phases env args diffs) (phase_steps (state_name args) diffs)"
proof -
  have names: "map rec_name (filter (\<lambda>item. rec_name item \<noteq> s) (filter (\<lambda>item. rec_type item = t) xs))
      = filter (\<lambda>n. n \<noteq> s) (names_of t xs)" for s t xs
    by (simp add: names_of_def filter_map comp_def)
  have "refines env
     (\<lambda>w. and_then
       (for_each (createFolder env) (filter (\<lambda>item. rec_type item = Folder) (upload diffs)) w)
       (\<lambda>w. and_then
          (for_each (uploadFile env)
             (filter (\<lambda>item. rec_name item \<noteq> state_name args)
                (filter (\<lambda>item. rec_type item = File) (upload diffs))) w)
          (\<lambda>w. and_then
             (for_each (uploadFile env)
                (filter (\<lambda>item. rec_name item \<noteq> state_name args)
                   (filter (\<lambda>item. rec_type item = File) (replace diffs))) w)
             (\<lambda>w. and_then
                (for_each (removeFile env)
                   (filter (\<lambda>item. rec_type item = File) (delete diffs)) w)
                (for_each (removeFolder env)
                   (filter (\<lambda>item. rec_type item = Folder) (delete diffs)))))))
     (concat (map create_steps (map rec_name (filter (\<lambda>item. rec_type item = Folder) (upload diffs))))
      @ concat (map upload_steps (map rec_name (filter (\<lambda>item. rec_name item \<noteq> state_name args)
                (filter (\<lambda>item. rec_type item = File) (upload diffs)))))
      @ concat (map upload_steps (map rec_name (filter (\<lambda>item. rec_name item \<noteq> state_name args)
                (filter (\<lambda>item. rec_type item = File) (replace diffs)))))
      @ concat (map remove_file_steps (map rec_name (filter (\<lambda>item. rec_type item = File) (delete diffs))))
      @ concat (map remove_folder_steps (map rec_name (filter (\<lambda>item. rec_type item = Folder) (delete diffs)))))"
    by (intro refines_and_then refines_for_each refines_createFolder refines_uploadFile
          refines_removeFile refines_removeFolder)
  then show ?thesis
    unfolding names by (simp add: refines_def deploy_phases_def phase_steps_def names_of_def)
qed

lemma refines_deploy_sync:
  "refines env (deploy_sync env args diffs) (sync_steps (state_name args) diffs)"
proof -
  have last: "refines env
     (\<lambda>w. ftp env (UploadFrom (state_name args) (state_name args))
             (logger LAll (SyncComplete (state_name args)) (logger LAll Rule w)))
     [(UploadFrom (state_name args) (state_name args), False)]"
    by (rule refines_after [OF refines_ftp]) simp
  from refines_and_then [OF refines_deploy_phases last]
  have "refines env (\<lambda>w. and_then (deploy_phases env args diffs w)
          (\<lambda>w. ftp env (UploadFrom (state_name args) (state_name args))
             (logger LAll (SyncComplete (state_name args)) (logger LAll Rule w))))
         (sync_steps (state_name args) diffs)"
    by (simp add: sync_steps_def)
  from refines_after [OF this, of "\<lambda>w0. logger LAll Rule
                (logger LAll (Sizes (sizeUpload diffs) (sizeDelete diffs) (sizeReplace diffs))
                   (logger LAll (MakingChanges (length (delete diffs) + length (upload diffs) + length (replace diffs))) (logger LAll Rule w0)))"]
  show ?thesis by (simp add: refines_def deploy_sync_def Let_def)
qed

section \<open>Where a run of a plan ends\<close>

lemma good_step_pair [simp]: "good_step (op, t) = (t = is_removal op \<and> \<not> is_bootstrap op)"
  by (simp add: good_step_def)

lemma calm_append [simp]: "calm env (a @ b) = (calm env a \<and> calm env b)"
  by (simp add: calm_def)

lemma calm_Nil [simp]: "calm env []"
  by (simp add: calm_def)

lemma calm_Cons [simp]: "calm env (ev # evs) = (\<not> fatal env ev \<and> calm env evs)"
  by (simp add: calm_def)

lemma ended_Cons:
  "\<not> fatal env ev \<Longrightarrow> ended env r added \<Longrightarrow> ended env r (ev # added)"
  by (cases r) (auto simp: ended_def)

lemma run_steps_ended:
  "list_all good_step steps \<Longrightarrow>
   \<exists>added. snd (run_steps env steps tr) = tr @ added \<and> ended env (fst (run_steps env steps tr)) added"
proof (induction env steps tr rule: run_steps.induct)
  case (1 env tr)
  show ?case by (simp add: ended_def)
next
  case (2 env op tolerant steps tr)
  from "2.prems" have tol: "tolerant = is_removal op" and nb: "\<not> is_bootstrap op"
    and rest: "list_all good_step steps"
    by simp_all
  show ?case
  proof (cases "client env tr op")
    case None
    from "2.IH"(1) [OF None rest] obtain added where
      a: "snd (run_steps env steps (tr @ [Ftp op None])) = (tr @ [Ftp op None]) @ added"
      and e: "ended env (fst (run_steps env steps (tr @ [Ftp op None]))) added"
      by blast
    have "ended env (fst (run_steps env steps (tr @ [Ftp op None]))) (Ftp op None # added)"
      by (rule ended_Cons [OF _ e]) simp
    with a None show ?thesis by auto
  next
    case (Some e)
    show ?thesis
    proof (cases "tolerant \<and> code e = Some (FileNotFoundOrNoAccess env)")
      case True
      from "2.IH"(2) [OF Some True rest] obtain added where
        a: "snd (run_steps env steps (tr @ [Ftp op (Some e)])) = (tr @ [Ftp op (Some e)]) @ added"
        and en: "ended env (fst (run_steps env steps (tr @ [Ftp op (Some e)]))) added"
        by blast
      have "ended env (fst (run_steps env steps (tr @ [Ftp op (Some e)]))) (Ftp op (Some e) # added)"
        by (rule ended_Cons [OF _ en]) (use True tol in simp)
      with a Some True show ?thesis by auto
    next
      case False
      with Some tol nb show ?thesis
        by (auto simp: ended_def)
    qed
  qed
qed

lemma good_leave: "list_all good_step (leave_steps p)"
  by (auto simp: leave_steps_def list_all_iff split: option.splits)

lemma good_enter: "list_all good_step (enter_steps p)"
  by (simp add: enter_steps_def split: option.splits)

lemma good_upload: "list_all good_step (upload_steps n)"
  by (simp add: upload_steps_def Let_def good_enter good_leave split: option.splits)

lemma good_create: "list_all good_step (create_steps n)"
  by (simp add: create_steps_def Let_def good_enter good_leave)

lemma good_remove_file: "list_all good_step (remove_file_steps n)"
  by (simp add: remove_file_steps_def Let_def good_enter good_leave split: option.splits)

lemma good_remove_folder: "list_all good_step (remove_folder_steps n)"
  by (simp add: remove_folder_steps_def Let_def good_leave split: option.splits)

lemma good_concat: "(\<And>x. list_all good_step (g x)) \<Longrightarrow> list_all good_step (concat (map g xs))"
  by (induction xs) simp_all

lemma good_phase_steps: "list_all good_step (phase_steps s diffs)"
  by (simp add: phase_steps_def good_concat good_upload good_create good_remove_file good_remove_folder)

lemma good_sync_steps: "list_all good_step (sync_steps s diffs)"
  by (simp add: sync_steps_def good_phase_steps)

lemma fatal_is_last:
  assumes "ended env r added" and "added = pre @ ev # post" and "fatal env ev"
  shows "post = [] \<and> (\<exists>op e. ev = Ftp op (Some e) \<and> r = Inl e)"
proof (cases r)
  case (Inr u)
  with assms show ?thesis by (simp add: ended_def)
next
  case (Inl e)
  with assms(1) have ne: "added \<noteq> []" and c: "calm env (butlast added)"
    and l: "case last added of Ftp op x \<Rightarrow> x = Some e | WriteFile p c \<Rightarrow> False"
    by (simp_all add: ended_def)
  have post: "post = []"
  proof (rule ccontr)
    assume "post \<noteq> []"
    then have "butlast added = pre @ ev # butlast post"
      using assms(2) by (simp add: butlast_append)
    with c assms(3) show False by simp
  qed
  with assms(2) have "last added = ev" by simp
  with l Inl post show ?thesis by (cases ev) auto
qed

lemma tolerated_not_cause:
  assumes "ended env r added" and "added = pre @ [ev]" and "\<not> fatal env ev"
  shows "r = Inr ()"
proof (cases r)
  case (Inr u)
  then show ?thesis by simp
next
  case (Inl e)
  with assms show ?thesis by (simp add: ended_def)
qed

lemma only_fatal:
  assumes "xs @ [l] @ c = pre @ ev # post" and "calm env xs" and "calm env c" and "fatal env ev"
  shows "pre = xs \<and> ev = l \<and> post = c"
  using assms
proof (induction xs arbitrary: pre)
  case Nil
  then show ?case by (cases pre) auto
next
  case (Cons x xs)
  then show ?case by (cases pre) auto
qed

lemma closing_calm: "closing = [] \<or> closing = [Ftp Close None] \<Longrightarrow> calm env closing"
  by auto

section \<open>The blocks of \<open>deploy\<close>\<close>

lemma push_records_world:
  "fst (push_records env files records w) = fst (push_records env files records w')
   \<and> trace (snd (push_records env files records w)) = trace w"
proof (induction files arbitrary: records w w')
  case Nil
  show ?case by simp
next
  case (Cons stat files)
  show ?case
  proof (cases "kind stat")
    case Directory
    with Cons show ?thesis by simp
  next
    case RegularFile
    with Cons show ?thesis by (cases "fileHash env (path stat) SHA256") simp_all
  next
    case SymbolicLink
    with Cons [of records "logger ConsoleWarn SymlinkUnsupported w" "logger ConsoleWarn SymlinkUnsupported w'"]
    show ?thesis by simp
  next
    case OtherKind
    with Cons show ?thesis by simp
  qed
qed

lemma getLocalFiles_world:
  "fst (getLocalFiles env args w) = fst (getLocalFiles env args w')
   \<and> trace (snd (getLocalFiles env args w)) = trace w"
proof (cases "readdir env")
  case (Inl e)
  then show ?thesis by (simp add: getLocalFiles_def)
next
  case (Inr found)
  define fs where "fs = filter (\<lambda>stat. includeExcludeFilter env stat args) found"
  obtain r v where a: "push_records env fs [] w = (r, v)" by (cases "push_records env fs [] w")
  obtain r' v' where b: "push_records env fs [] w' = (r', v')" by (cases "push_records env fs [] w'")
  from push_records_world [of env fs "[]" w w'] a b have "r = r'" and "trace v = trace w"
    by simp_all
  with Inr a b show ?thesis
    by (auto simp: getLocalFiles_def fs_def split: promise.splits)
qed

lemma settled_try_sync: "settled env w (deploy_try_sync env args diffs w)"
proof -
  obtain r w' where s: "deploy_sync env args diffs w = (r, w')"
    by (cases "deploy_sync env args diffs w")
  with refines_deploy_sync [of env args diffs]
  have rs: "run_steps env (sync_steps (state_name args) diffs) (trace w) = (r, trace w')"
    by (metis refines_def fst_conv snd_conv prod.collapse)
  from run_steps_ended [OF good_sync_steps, of env "state_name args" diffs "trace w"] rs
  obtain added where a: "trace w' = trace w @ added" and e: "ended env r added"
    by auto
  show ?thesis
  proof (cases r)
    case (Inr u)
    with s a e show ?thesis
      by (auto simp: settled_def deploy_try_sync_def ended_def)
  next
    case (Inl x)
    with e have ne: "added \<noteq> []" and c: "calm env (butlast added)" and f: "fatal env (last added)"
      and l: "\<exists>op. last added = Ftp op (Some x)"
      by (auto simp: ended_def split: event.splits)
    have t: "trace (snd (deploy_try_sync env args diffs w)) = trace w @ added"
      using s a Inl by (simp add: deploy_try_sync_def)
    have rep: "reported x (snd (deploy_try_sync env args diffs w))"
      using s Inl by (simp add: deploy_try_sync_def reported_def)
    show ?thesis
      unfolding settled_def using t ne c f l rep by blast
  qed
qed

lemma settled_diff: "settled env w (deploy_diff env args localFiles serverFiles w)"
proof (cases "getDiffs env localFiles serverFiles")
  case (Inl e)
  then show ?thesis by (simp add: deploy_diff_def settled_def)
next
  case (Inr diffs)
  then show ?thesis using settled_try_sync [of env w args diffs] by (simp add: deploy_diff_def)
qed

lemma settled_prefix:
  assumes "trace w1 = trace w @ x" and "calm env x" and "settled env w1 res"
  shows "settled env w res"
proof -
  from assms(3) obtain added where t: "trace (snd res) = trace w1 @ added"
    and d: "calm env added \<and> fst res = Normal
           \<or> added \<noteq> [] \<and> calm env (butlast added) \<and> fatal env (last added)
             \<and> (\<exists>op e. last added = Ftp op (Some e) \<and> reported e (snd res))"
    unfolding settled_def by blast
  show ?thesis
    unfolding settled_def
  proof (intro exI conjI)
    show "trace (snd res) = trace w @ (x @ added)" using t assms(1) by simp
    show "calm env (x @ added) \<and> fst res = Normal
           \<or> x @ added \<noteq> [] \<and> calm env (butlast (x @ added)) \<and> fatal env (last (x @ added))
             \<and> (\<exists>op e. last (x @ added) = Ftp op (Some e) \<and> reported e (snd res))"
      using d assms(2) by (auto simp: butlast_append)
  qed
qed

lemma fetch_cases:
  "fetch_server_files env args w =
     (if dangerous_clean_slate args then
        no_server_state env args
          (case client env (trace w) ClearWorkingDir of
             None \<Rightarrow> logger LAll ClearComplete
                       ((logger LAll RemovingAll (logger LAll Rule w))
                          \<lparr>trace := trace w @ [Ftp ClearWorkingDir None]\<rparr>)
           | Some e \<Rightarrow> (logger LAll RemovingAll (logger LAll Rule w))
                          \<lparr>trace := trace w @ [Ftp ClearWorkingDir (Some e)]\<rparr>)
      else
        (case downloadFileList env (state_name args) w of
           (Inl e, w') \<Rightarrow> no_server_state env args w'
         | (Inr serverFiles, w') \<Rightarrow>
             (serverFiles,
              logger LAll (LastPublished (generatedTime serverFiles)) (logger LAll Rule w'))))"
  by (simp add: fetch_server_files_def ftp_def Let_def split: option.splits)

lemma fetch_trace:
  "\<exists>x. trace (snd (fetch_server_files env args w)) = trace w @ x \<and> calm env x"
proof (cases "dangerous_clean_slate args")
  case True
  then show ?thesis
    by (auto simp: fetch_server_files_def no_server_state_def ftp_def Let_def split: option.splits)
next
  case False
  then show ?thesis
    by (auto simp: fetch_server_files_def no_server_state_def downloadFileList_def Let_def
          split: option.splits sum.splits)
qed

lemma settled_connected: "settled env w (deploy_connected env args localFiles w)"
proof -
  obtain sf w1 where f: "fetch_server_files env args w = (sf, w1)"
    by (cases "fetch_server_files env args w")
  with fetch_trace [of env args w] obtain x where "trace w1 = trace w @ x" and "calm env x"
    by auto
  from settled_prefix [OF this settled_diff] f show ?thesis
    by (simp add: deploy_connected_def)
qed

lemma settled_session: "settled env w (deploy_session env args localFiles w)"
proof (cases "client env (trace w) (Access (server args) (username args) (password args))")
  case None
  let ?w1 = "w\<lparr>trace := trace w @ [Ftp (Access (server args) (username args) (password args)) None]\<rparr>"
  have "trace ?w1 = trace w @ [Ftp (Access (server args) (username args) (password args)) None]"
    by simp
  moreover have "calm env [Ftp (Access (server args) (username args) (password args)) None]"
    by simp
  ultimately have "settled env w (deploy_connected env args localFiles ?w1)"
    using settled_connected by (rule settled_prefix)
  with None show ?thesis by (simp add: deploy_session_def ftp_def)
next
  case (Some e)
  then show ?thesis
    by (simp add: deploy_session_def ftp_def settled_def reported_def)
qed

lemma settledE:
  assumes "settled env w (c, w2)"
  obtains added where "trace w2 = trace w @ added"
    and "calm env added \<and> c = Normal
         \<or> (\<exists>a op e. added = a @ [Ftp op (Some e)] \<and> calm env a \<and> fatal env (Ftp op (Some e))
               \<and> reported e w2)"
proof -
  from assms obtain added where t: "trace w2 = trace w @ added"
    and alt: "calm env added \<and> c = Normal
           \<or> added \<noteq> [] \<and> calm env (butlast added) \<and> fatal env (last added)
             \<and> (\<exists>op e. last added = Ftp op (Some e) \<and> reported e w2)"
    unfolding settled_def fst_conv snd_conv by blast
  from alt have "calm env added \<and> c = Normal
         \<or> (\<exists>a op e. added = a @ [Ftp op (Some e)] \<and> calm env a \<and> fatal env (Ftp op (Some e))
               \<and> reported e w2)"
  proof
    assume "calm env added \<and> c = Normal"
    then show ?thesis by (rule disjI1)
  next
    assume f: "added \<noteq> [] \<and> calm env (butlast added) \<and> fatal env (last added)
             \<and> (\<exists>op e. last added = Ftp op (Some e) \<and> reported e w2)"
    then obtain op e where l: "last added = Ftp op (Some e)" and rep: "reported e w2" by blast
    from f have "added = butlast added @ [last added]" by simp
    with l have "added = butlast added @ [Ftp op (Some e)]" by simp
    moreover from f have "calm env (butlast added)" by simp
    moreover from f l have "fatal env (Ftp op (Some e))" by simp
    ultimately show ?thesis using rep by blast
  qed
  with t that show thesis by blast
qed

lemma reported_finish: "reported e w \<Longrightarrow> reported e (snd (deploy_finish env w))"
  by (auto simp: reported_def deploy_finish_def logger_def Let_def split: option.splits)

lemma trace_finish: "trace (snd (deploy_finish env w)) = trace w @ [Ftp Close None]"
  by (simp add: deploy_finish_def Let_def split: option.splits)

lemma finish_result:
  "closing_report env (trace (snd (deploy_finish env w))) = None \<Longrightarrow> fst (deploy_finish env w) = Resolved ()"
  by (simp add: trace_finish) (simp add: deploy_finish_def)

lemma trace_welcome: "trace (deploy_welcome w) = trace w"
  by (simp add: deploy_welcome_def)

lemma deploy_written:
  assumes "getLocalFiles env args (deploy_welcome w0) = (Resolved localFiles, w1)"
      and "writeFileSync env (''./'' @ state_name args) (json_stringify env localFiles) = None"
  shows "deploy env args w0 =
           (case deploy_session env args localFiles
                   (w1\<lparr>trace := trace w0 @
                          [WriteFile (''./'' @ state_name args) (json_stringify env localFiles)]\<rparr>) of
              (Returned, w2) \<Rightarrow> (Resolved (), w2)
            | (Normal, w2) \<Rightarrow> deploy_finish env w2)"
proof -
  from getLocalFiles_world [of env args "deploy_welcome w0" "deploy_welcome w0"] assms(1)
  have "trace w1 = trace w0" by (simp add: trace_welcome)
  with assms show ?thesis by (simp add: deploy_def)
qed

lemma deploy_unwritten:
  assumes "\<not> (\<exists>localFiles w1. getLocalFiles env args (deploy_welcome w0) = (Resolved localFiles, w1)
               \<and> writeFileSync env (''./'' @ state_name args) (json_stringify env localFiles) = None)"
  shows "trace (snd (deploy env args w0)) = trace w0"
proof -
  obtain r w1 where g: "getLocalFiles env args (deploy_welcome w0) = (r, w1)"
    by (cases "getLocalFiles env args (deploy_welcome w0)")
  from getLocalFiles_world [of env args "deploy_welcome w0" "deploy_welcome w0"] g
  have t: "trace w1 = trace w0" by (simp add: trace_welcome)
  show ?thesis
  proof (cases r)
    case (Resolved localFiles)
    with assms g obtain e where
      "writeFileSync env (''./'' @ state_name args) (json_stringify env localFiles) = Some e"
      by (cases "writeFileSync env (''./'' @ state_name args) (json_stringify env localFiles)") auto
    with g Resolved t show ?thesis by (simp add: deploy_def)
  next
    case (Rejected e)
    with g t show ?thesis by (simp add: deploy_def)
  next
    case Unsettled
    with g t show ?thesis by (simp add: deploy_def)
  qed
qed

lemma deploy_shape:
  "\<exists>added closing. trace (snd (deploy env args w0)) = trace w0 @ added @ closing
     \<and> (closing = [] \<or> closing = [Ftp Close None])
     \<and> (calm env added
        \<or> (\<exists>a op e. added = a @ [Ftp op (Some e)] \<and> calm env a \<and> fatal env (Ftp op (Some e))
              \<and> reported e (snd (deploy env args w0))
              \<and> resolves_after env (deploy env args w0)))"
proof (cases "\<exists>localFiles w1. getLocalFiles env args (deploy_welcome w0) = (Resolved localFiles, w1)
               \<and> writeFileSync env (''./'' @ state_name args) (json_stringify env localFiles) = None")
  case False
  from deploy_unwritten [OF False] have "trace (snd (deploy env args w0)) = trace w0 @ [] @ []"
    by simp
  moreover have "calm env []" by simp
  ultimately show ?thesis by blast
next
  case True
  then obtain localFiles w1 where g: "getLocalFiles env args (deploy_welcome w0) = (Resolved localFiles, w1)"
    and wr: "writeFileSync env (''./'' @ state_name args) (json_stringify env localFiles) = None"
    by blast
  define ev where "ev = WriteFile (''./'' @ state_name args) (json_stringify env localFiles)"
  define w where "w = w1\<lparr>trace := trace w0 @ [ev]\<rparr>"
  obtain c w2 where ses: "deploy_session env args localFiles w = (c, w2)"
    by (cases "deploy_session env args localFiles w")
  define closing where "closing = (if c = Returned then [] else [Ftp Close None])"
  have d: "deploy env args w0 = (if c = Returned then (Resolved (), w2) else deploy_finish env w2)"
    using deploy_written [OF g wr] ses by (cases c) (simp_all add: w_def ev_def)
  have res: "resolves_after env (deploy env args w0)"
    unfolding resolves_after_def using d finish_result [of env w2] by (cases c) simp_all
  have cl: "closing = [] \<or> closing = [Ftp Close None]" by (simp add: closing_def)
  have tw: "trace w = trace w0 @ [ev]" by (simp add: w_def)
  from settled_session [of env w args localFiles] ses have "settled env w (c, w2)" by simp
  then show ?thesis
  proof (rule settledE)
    fix added
    assume t: "trace w2 = trace w @ added"
      and alt: "calm env added \<and> c = Normal
         \<or> (\<exists>a op e. added = a @ [Ftp op (Some e)] \<and> calm env a \<and> fatal env (Ftp op (Some e))
               \<and> reported e w2)"
    have tr: "trace (snd (deploy env args w0)) = trace w0 @ (ev # added) @ closing"
      using d t tw by (cases c) (simp_all add: trace_finish closing_def)
    from alt show ?thesis
    proof
      assume "calm env added \<and> c = Normal"
      then have "calm env (ev # added)" by (simp add: ev_def)
      with tr cl show ?thesis by blast
    next
      assume "\<exists>a op e. added = a @ [Ftp op (Some e)] \<and> calm env a \<and> fatal env (Ftp op (Some e))
               \<and> reported e w2"
      then obtain a op e where a: "added = a @ [Ftp op (Some e)]" and ca: "calm env a"
        and f: "fatal env (Ftp op (Some e))" and rep: "reported e w2"
        by blast
      have 1: "ev # added = (ev # a) @ [Ftp op (Some e)]" using a by simp
      have 2: "calm env (ev # a)" using ca by (simp add: ev_def)
      have 3: "reported e (snd (deploy env args w0))"
        using d rep by (cases c) (simp_all add: reported_finish)
      have "\<exists>a op e. ev # added = a @ [Ftp op (Some e)] \<and> calm env a \<and> fatal env (Ftp op (Some e))
              \<and> reported e (snd (deploy env args w0))
              \<and> resolves_after env (deploy env args w0)"
      proof (intro exI conjI)
        show "ev # added = (ev # a) @ [Ftp op (Some e)]" by (rule 1)
        show "calm env (ev # a)" by (rule 2)
        show "fatal env (Ftp op (Some e))" by (rule f)
        show "reported e (snd (deploy env args w0))" by (rule 3)
        show "resolves_after env (deploy env args w0)" by (rule res)
      qed
      then have "calm env (ev # added)
        \<or> (\<exists>a op e. ev # added = a @ [Ftp op (Some e)] \<and> calm env a \<and> fatal env (Ftp op (Some e))
              \<and> reported e (snd (deploy env args w0))
              \<and> resolves_after env (deploy env args w0))"
        by (rule disjI2)
      with tr cl show ?thesis by (intro exI conjI)
    qed
  qed
qed

section \<open>Concrete runs\<close>

lemma breadcrumbs_state: "getFileBreadcrumbs ''.sync-state.json'' = \<lparr>folders = None, file_part = Some ''.sync-state.json''\<rparr>"
  by (simp add: getFileBreadcrumbs_def)

lemma breadcrumbs_b: "getFileBreadcrumbs ''b.txt'' = \<lparr>folders = None, file_part = Some ''b.txt''\<rparr>"
  by (simp add: getFileBreadcrumbs_def)

lemma breadcrumbs_docs: "getFileBreadcrumbs ''docs/'' = \<lparr>folders = Some [''docs''], file_part = None\<rparr>"
  by (simp add: getFileBreadcrumbs_def)

lemma breadcrumbs_a: "getFileBreadcrumbs ''docs/a.txt'' = \<lparr>folders = Some [''docs''], file_part = Some ''a.txt''\<rparr>"
  by (simp add: getFileBreadcrumbs_def)

lemma breadcrumbs_old: "getFileBreadcrumbs ''old.txt'' = \<lparr>folders = None, file_part = Some ''old.txt''\<rparr>"
  by (simp add: getFileBreadcrumbs_def)

lemma local_files0:
  "getLocalFiles (env0\<lparr>client := c\<rparr>) args0 w = (Resolved local0, w)"
  by (simp add: getLocalFiles_def env0_def args0_def includeExcludeFilter_def exact_match_def
        fileHash_def local0_def folder_entry_def file_entry_def)

lemma sorted_paths0: "sort [''docs'', ''docs/a.txt''] = [''docs'', ''docs/a.txt'']"
  by code_simp

lemma diff0: "getDiffs (env0\<lparr>client := c\<rparr>) local0 (empty_state (env0\<lparr>client := c\<rparr>)) = Inr diffs0"
  by (simp add: env0_def spec_getDiffs_def diff_def empty_state_def local0_def all_paths_def
        sorted_paths0 path_map_def classify_def bytes_of_def diffs0_def folder_entry_def file_entry_def)

lemma run_full_sync:
  "deploy_try_sync env_full args0 diffs0
     \<lparr>trace = tr, logs = lg\<rparr>
   = (Normal, \<lparr>trace = tr @ [Ftp (EnsureDir ''docs'') None, Ftp Cdup None, Ftp (EnsureDir ''docs'') None,
                  Ftp (UploadFrom ''docs/a.txt'' ''a.txt'') (Some (FTPError 552))],
        logs = lg @ [(LAll, Rule), (LAll, MakingChanges 2), (LAll, Sizes 4 0 0), (LAll, Rule),
                 (LAll, CreatingFolder ''docs/''), (LDebug, CreatingFolderDir ''docs''), (LDebug, Completed),
                 (LAll, Uploading ''docs/a.txt''), (LDebug, ChangingDirTo ''docs''), (LDebug, DirChanged),
                 (LDebug, UploadStarted), (LWarn, ErrorCaught (FTPError 552))]\<rparr>)"
  by (simp add: deploy_try_sync_def deploy_sync_def deploy_phases_def diffs0_def folder_entry_def
        file_entry_def args0_def createFolder_def uploadFile_def breadcrumbs_docs breadcrumbs_a
        run_defs env_full_def env0_def numeral_2_eq_2)

lemma welcome_init:
  "deploy_welcome w_init
     = \<lparr>trace = [], logs = [(LAll, Rule), (LAll, Welcome), (LAll, Rule), (LAll, SupportIt), (LAll, GiveStar)]\<rparr>"
  by (simp add: deploy_welcome_def w_init_def logger_def)

lemma run_full:
  "trace (snd (deploy env_full args0 w_init))
     = [WriteFile ''./.sync-state.json'' ''{}'',
        Ftp (Access ''ftp.example.org'' ''user'' ''secret'') None,
        Ftp (DownloadTo ''.sync-state.json'') (Some (FTPError 550)),
        Ftp (EnsureDir ''docs'') None, Ftp Cdup None, Ftp (EnsureDir ''docs'') None,
        Ftp (UploadFrom ''docs/a.txt'' ''a.txt'') (Some (FTPError 552)),
        Ftp Close None]"
proof -
  have g: "getLocalFiles env_full args0 (deploy_welcome w_init) = (Resolved local0, deploy_welcome w_init)"
    unfolding env_full_def by (rule local_files0)
  have d: "getDiffs env_full local0 (empty_state env_full) = Inr diffs0"
    unfolding env_full_def by (rule diff0)
  have wr: "writeFileSync env_full (''./'' @ state_name args0) (json_stringify env_full local0) = None"
    by (simp add: env_full_def env0_def)
  have f: "fetch_server_files env_full args0 \<lparr>trace = tr, logs = lg\<rparr>
             = (empty_state env_full,
                \<lparr>trace = tr @ [Ftp (DownloadTo ''.sync-state.json'') (Some (FTPError 550))],
                 logs = lg @ [(LAll, Rule), (LAll, NoFileOnServer ''.sync-state.json''),
                              (LAll, FirstPublishSlow), (LAll, SomethingIsWrong)]\<rparr>)" for tr lg
    by (simp add: fetch_server_files_def downloadFileList_def no_server_state_def args0_def
          env_full_def env0_def logger_def)
  have s: "deploy_session env_full args0 local0 \<lparr>trace = tr, logs = lg\<rparr>
             = deploy_connected env_full args0 local0
                 \<lparr>trace = tr @ [Ftp (Access ''ftp.example.org'' ''user'' ''secret'') None], logs = lg\<rparr>" for tr lg
    by (simp add: deploy_session_def ftp_def args0_def env_full_def env0_def)
  show ?thesis
    by (simp add: deploy_written [OF g wr] welcome_init s deploy_connected_def f deploy_diff_def d
          run_full_sync trace_finish)
      (simp add: args0_def env_full_def env0_def w_init_def logger_def)
qed

lemma result_full: "fst (deploy env_full args0 w_init) = Resolved ()"
proof -
  have g: "getLocalFiles env_full args0 (deploy_welcome w_init) = (Resolved local0, deploy_welcome w_init)"
    unfolding env_full_def by (rule local_files0)
  have d: "getDiffs env_full local0 (empty_state env_full) = Inr diffs0"
    unfolding env_full_def by (rule diff0)
  have wr: "writeFileSync env_full (''./'' @ state_name args0) (json_stringify env_full local0) = None"
    by (simp add: env_full_def env0_def)
  have f: "fetch_server_files env_full args0 \<lparr>trace = tr, logs = lg\<rparr>
             = (empty_state env_full,
                \<lparr>trace = tr @ [Ftp (DownloadTo ''.sync-state.json'') (Some (FTPError 550))],
                 logs = lg @ [(LAll, Rule), (LAll, NoFileOnServer ''.sync-state.json''),
                              (LAll, FirstPublishSlow), (LAll, SomethingIsWrong)]\<rparr>)" for tr lg
    by (simp add: fetch_server_files_def downloadFileList_def no_server_state_def args0_def
          env_full_def env0_def logger_def)
  have s: "deploy_session env_full args0 local0 \<lparr>trace = tr, logs = lg\<rparr>
             = deploy_connected env_full args0 local0
                 \<lparr>trace = tr @ [Ftp (Access ''ftp.example.org'' ''user'' ''secret'') None], logs = lg\<rparr>" for tr lg
    by (simp add: deploy_session_def ftp_def args0_def env_full_def env0_def)
  have r: "closing_report env_full tr = None" for tr
    by (simp add: env_full_def env0_def)
  show ?thesis
    by (simp add: deploy_written [OF g wr] welcome_init s deploy_connected_def f deploy_diff_def d
          run_full_sync finish_result r)
qed

lemma run_refused:
  "trace (snd (deploy env_refused args0 w_init))
     = [WriteFile ''./.sync-state.json'' ''{}'',
        Ftp (Access ''ftp.example.org'' ''user'' ''secret'') (Some (FTPError 530)),
        Ftp Close None]"
proof -
  have g: "getLocalFiles env_refused args0 (deploy_welcome w_init) = (Resolved local0, deploy_welcome w_init)"
    unfolding env_refused_def by (rule local_files0)
  have wr: "writeFileSync env_refused (''./'' @ state_name args0) (json_stringify env_refused local0) = None"
    by (simp add: env_refused_def env0_def)
  show ?thesis
    by (simp add: deploy_written [OF g wr] welcome_init deploy_session_def ftp_def trace_finish)
      (simp add: args0_def env_refused_def env0_def w_init_def logger_def trace_finish)
qed

lemma local_files_stale:
  "getLocalFiles env_stale args0 w = (Resolved local0, w)"
  by (simp add: getLocalFiles_def env_stale_def env0_def args0_def includeExcludeFilter_def
        exact_match_def fileHash_def local0_def folder_entry_def file_entry_def)

lemma sorted_paths_stale:
  "sort [''.sync-state.json'', ''docs'', ''docs/a.txt''] = [''.sync-state.json'', ''docs'', ''docs/a.txt'']"
  by code_simp

lemma diff_stale: "getDiffs env_stale local0 stale_state = Inr diffs_state_gone"
  by (simp add: env_stale_def env0_def spec_getDiffs_def diff_def stale_state_def local0_def
        all_paths_def sorted_paths_stale path_map_def classify_def bytes_of_def
        diffs_state_gone_def folder_entry_def file_entry_def)

lemma run_stale:
  "trace (snd (deploy env_stale args0 w_init))
     = [WriteFile ''./.sync-state.json'' ''{}'',
        Ftp (Access ''ftp.example.org'' ''user'' ''secret'') None,
        Ftp (DownloadTo ''.sync-state.json'') None,
        Ftp (Remove ''.sync-state.json'') None,
        Ftp (UploadFrom ''.sync-state.json'' ''.sync-state.json'') None,
        Ftp Close None]"
proof -
  have g: "getLocalFiles env_stale args0 (deploy_welcome w_init) = (Resolved local0, deploy_welcome w_init)"
    by (rule local_files_stale)
  have wr: "writeFileSync env_stale (''./'' @ state_name args0) (json_stringify env_stale local0) = None"
    by (simp add: env_stale_def env0_def)
  have f: "fetch_server_files env_stale args0 \<lparr>trace = tr, logs = lg\<rparr>
             = (stale_state,
                \<lparr>trace = tr @ [Ftp (DownloadTo ''.sync-state.json'') None],
                 logs = lg @ [(LAll, Rule), (LAll, LastPublished 0)]\<rparr>)" for tr lg
    by (simp add: fetch_server_files_def downloadFileList_def args0_def
          env_stale_def env0_def logger_def stale_state_def)
  have s: "deploy_session env_stale args0 local0 \<lparr>trace = tr, logs = lg\<rparr>
             = deploy_connected env_stale args0 local0
                 \<lparr>trace = tr @ [Ftp (Access ''ftp.example.org'' ''user'' ''secret'') None], logs = lg\<rparr>" for tr lg
    by (simp add: deploy_session_def ftp_def args0_def env_stale_def env0_def)
  have y: "deploy_try_sync env_stale args0 diffs_state_gone \<lparr>trace = tr, logs = lg\<rparr>
             = (Normal,
                \<lparr>trace = tr @ [Ftp (Remove ''.sync-state.json'') None,
                               Ftp (UploadFrom ''.sync-state.json'' ''.sync-state.json'') None],
                 logs = lg @ [(LAll, Rule), (LAll, MakingChanges 1), (LAll, Sizes 0 2 0), (LAll, Rule),
                              (LAll, RemovingFile ''.sync-state.json''), (LDebug, NoNeedToChangeDir),
                              (LDebug, RemovingFileName ''.sync-state.json''), (LDebug, FileRemoved),
                              (LInfo, CompletedUpper), (LAll, Rule),
                              (LAll, SyncComplete ''.sync-state.json'')]\<rparr>)" for tr lg
    by (simp add: deploy_try_sync_def deploy_sync_def deploy_phases_def diffs_state_gone_def
          file_entry_def args0_def removeFile_def breadcrumbs_state run_defs env_stale_def env0_def)
  show ?thesis
    by (simp add: deploy_written [OF g wr] welcome_init s deploy_connected_def f deploy_diff_def
          diff_stale y trace_finish)
      (simp add: args0_def env_stale_def env0_def w_init_def)
qed

lemma removal_not_bootstrap: "is_removal op \<Longrightarrow> \<not> is_bootstrap op"
  by (cases op) simp_all

section \<open>The diff of an inventory with itself\<close>

lemma classify_same: "classify x x = ([], [], [])"
proof (cases x)
  case None
  then show ?thesis by (simp add: classify_def)
next
  case (Some r)
  then show ?thesis by (cases "rec_type r") (simp_all add: classify_def)
qed

text \<open>
  Claim C9. For every inventory \<open>I\<close>, \<open>diff(I, I)\<close> is the edit script whose three
  lists are empty and whose three byte totals are zero.
\<close>

theorem diff_idempotent:
  "diff I I = \<lparr>toUpload = [], toReplace = [], toDelete = [],
                bytesUpload = 0, bytesReplace = 0, bytesDelete = 0\<rparr>"
  by (simp add: diff_def classify_same bytes_of_def Let_def comp_def)

section \<open>The inventory filter\<close>

text \<open>
  Claim C7. A path that matches an exclude pattern is left out, whatever the include
  patterns are; every other path is kept, also when include patterns are configured
  and the path matches none of them. A path matches a pattern list when \<open>multiMatch\<close>
  returns a non-empty list for it.
\<close>

theorem includeExcludeFilter_precedence:
  "(exclude args = Some ex \<and> multiMatch env (path stat) ex \<noteq> []
      \<longrightarrow> includeExcludeFilter env stat args = False)
   \<and> (exclude args = None \<or> (exclude args = Some ex \<and> multiMatch env (path stat) ex = [])
      \<longrightarrow> includeExcludeFilter env stat args = True)"
  by (auto simp: includeExcludeFilter_def)

theorem includeExcludeFilter_precedence_witness:
  "includeExcludeFilter env0 \<lparr>path = ''node_modules'', kind = Directory, stat_size = 0\<rparr>
     (args0\<lparr>include_arg := Some [''node_modules'']\<rparr>) = False
   \<and> includeExcludeFilter env0 \<lparr>path = ''src'', kind = Directory, stat_size = 0\<rparr> args0 = True"
proof -
  have a: "exclude (args0\<lparr>include_arg := Some [''node_modules'']\<rparr>) = Some [''node_modules'']
           \<and> multiMatch env0 (path \<lparr>path = ''node_modules'', kind = Directory, stat_size = 0\<rparr>)
               [''node_modules''] \<noteq> []"
    by (simp add: args0_def env0_def exact_match_def)
  have b: "exclude args0 = None
           \<or> (exclude args0 = Some [''node_modules'']
              \<and> multiMatch env0 (path \<lparr>path = ''src'', kind = Directory, stat_size = 0\<rparr>)
                  [''node_modules''] = [])"
    by (simp add: args0_def env0_def exact_match_def)
  from a b
    includeExcludeFilter_precedence [of "args0\<lparr>include_arg := Some [''node_modules'']\<rparr>"
      "[''node_modules'']" env0 "\<lparr>path = ''node_modules'', kind = Directory, stat_size = 0\<rparr>"]
    includeExcludeFilter_precedence [of args0 "[''node_modules'']" env0
      "\<lparr>path = ''src'', kind = Directory, stat_size = 0\<rparr>"]
  show ?thesis by blast
qed

section \<open>The content hasher and a stream that fails\<close>

text \<open>
  Claim C8. The hasher is to answer every file with the digest of the whole stream or
  with a failure, and never to leave the result open. For a file whose stream emits
  \<open>error\<close> (it cannot be opened), \<open>fileHash\<close> does neither: its promise stays unsettled.
\<close>

theorem fileHash_unsettled_on_stream_error:
  "fileHash env_unreadable ''missing.txt'' SHA256 = Unsettled"
  by (simp add: fileHash_def env_unreadable_def)

section \<open>The order of the phases\<close>

text \<open>
  Claim C1, as stated, at an edit script that lists the state file in \<open>toUpload\<close> and
  \<open>b.txt\<close> in \<open>toReplace\<close>: the stated order uploads the state file in the second phase,
  before \<open>b.txt\<close>; the program uploads \<open>b.txt\<close> first and the state file only once, at
  the end.
\<close>

theorem phase_order_counterexample:
  "trace (snd (deploy_sync env0 args0 diffs_state_new w_init))
     = [Ftp (UploadFrom ''b.txt'' ''b.txt'') None,
        Ftp (UploadFrom ''.sync-state.json'' ''.sync-state.json'') None]
   \<and> snd (run_steps env0 (stated_steps (state_name args0) diffs_state_new) (trace w_init))
     = [Ftp (UploadFrom ''.sync-state.json'' ''.sync-state.json'') None,
        Ftp (UploadFrom ''b.txt'' ''b.txt'') None,
        Ftp (UploadFrom ''.sync-state.json'' ''.sync-state.json'') None]"
proof
  show "trace (snd (deploy_sync env0 args0 diffs_state_new w_init))
     = [Ftp (UploadFrom ''b.txt'' ''b.txt'') None,
        Ftp (UploadFrom ''.sync-state.json'' ''.sync-state.json'') None]"
    by (simp add: deploy_sync_def deploy_phases_def diffs_state_new_def file_entry_def args0_def
          uploadFile_def breadcrumbs_b run_defs env0_def w_init_def)
  have "stated_steps (state_name args0) diffs_state_new
          = [(UploadFrom ''.sync-state.json'' ''.sync-state.json'', False),
             (UploadFrom ''b.txt'' ''b.txt'', False),
             (UploadFrom ''.sync-state.json'' ''.sync-state.json'', False)]"
    by (simp add: stated_steps_def diffs_state_new_def names_of_def file_entry_def args0_def
          upload_steps_def breadcrumbs_state breadcrumbs_b enter_steps_def leave_steps_def)
  then show "snd (run_steps env0 (stated_steps (state_name args0) diffs_state_new) (trace w_init))
     = [Ftp (UploadFrom ''.sync-state.json'' ''.sync-state.json'') None,
        Ftp (UploadFrom ''b.txt'' ''b.txt'') None,
        Ftp (UploadFrom ''.sync-state.json'' ''.sync-state.json'') None]"
    by (simp add: env0_def w_init_def)
qed

text \<open>
  Claim C1, amended. For every edit script and every behaviour of the client, the body
  of the \<open>try\<close> of lines 349-386 issues the calls of \<open>sync_steps\<close> in their order and
  stops at the first that fails without being tolerated: the calls that create the
  folders of \<open>toUpload\<close>, those that upload the files of \<open>toUpload\<close> other than the
  state file, those that upload the files of \<open>toReplace\<close> other than the state file,
  those that remove the files of \<open>toDelete\<close>, those that remove the folders of
  \<open>toDelete\<close>, and last, reached only when none of these has failed, the upload of
  the state file.
\<close>

theorem deploy_sync_phase_order:
  "fst (deploy_sync env args diffs w)
     = fst (run_steps env (sync_steps (state_name args) diffs) (trace w))
   \<and> trace (snd (deploy_sync env args diffs w))
     = snd (run_steps env (sync_steps (state_name args) diffs) (trace w))"
  using refines_deploy_sync [of env args diffs] by (simp add: refines_def)

theorem deploy_sync_phase_order_witness:
  "trace (snd (deploy_sync env0 args0 diffs_state_new w_init))
     = snd (run_steps env0
              [(UploadFrom ''b.txt'' ''b.txt'', False),
               (UploadFrom ''.sync-state.json'' ''.sync-state.json'', False)] [])"
proof -
  have "sync_steps (state_name args0) diffs_state_new
          = [(UploadFrom ''b.txt'' ''b.txt'', False),
             (UploadFrom ''.sync-state.json'' ''.sync-state.json'', False)]"
    by (simp add: sync_steps_def phase_steps_def diffs_state_new_def names_of_def file_entry_def
          args0_def upload_steps_def breadcrumbs_b enter_steps_def leave_steps_def)
  with deploy_sync_phase_order [of env0 args0 diffs_state_new w_init]
  show ?thesis by (simp add: w_init_def)
qed

section \<open>The state file in the delete phase\<close>

text \<open>
  Claim C2 at an edit script whose \<open>toDelete\<close> lists the state file: the five phases
  remove the state file from the server. The two upload loops filter its name out; the
  loop over the files of \<open>toDelete\<close> does not. Such an edit script arises in a whole run
  of \<open>deploy\<close> when the state file on the server lists the state file and the local
  tree does not hold it: the fourth phase removes the state file, the sixth uploads it.
\<close>

theorem state_file_removed_in_delete_phase:
  "trace (snd (deploy_phases env0 args0 diffs_state_gone w_init))
     = [Ftp (Remove ''.sync-state.json'') None]
   \<and> trace (snd (deploy env_stale args0 w_init))
     = [WriteFile ''./.sync-state.json'' ''{}'',
        Ftp (Access ''ftp.example.org'' ''user'' ''secret'') None,
        Ftp (DownloadTo ''.sync-state.json'') None,
        Ftp (Remove ''.sync-state.json'') None,
        Ftp (UploadFrom ''.sync-state.json'' ''.sync-state.json'') None,
        Ftp Close None]"
proof
  show "trace (snd (deploy_phases env0 args0 diffs_state_gone w_init))
     = [Ftp (Remove ''.sync-state.json'') None]"
    by (simp add: deploy_phases_def diffs_state_gone_def file_entry_def args0_def removeFile_def
          breadcrumbs_state run_defs env0_def w_init_def)
  show "trace (snd (deploy env_stale args0 w_init))
     = [WriteFile ''./.sync-state.json'' ''{}'',
        Ftp (Access ''ftp.example.org'' ''user'' ''secret'') None,
        Ftp (DownloadTo ''.sync-state.json'') None,
        Ftp (Remove ''.sync-state.json'') None,
        Ftp (UploadFrom ''.sync-state.json'' ''.sync-state.json'') None,
        Ftp Close None]"
    by (rule run_stale)
qed

section \<open>Bootstrap\<close>

text \<open>
  Claim C3. When the clean-slate flag is set, or the download of the state file
  fails, or what was downloaded does not parse, \<open>serverFiles\<close> is the empty inventory
  and the run goes on to the diff against it; with the flag the remote target has been
  wiped first.
\<close>

theorem bootstrap_with_empty_inventory:
  assumes "dangerous_clean_slate args
           \<or> client env (trace w) (DownloadTo (state_name args)) \<noteq> None
           \<or> isl (json_parse env (download_data env (trace w) (state_name args)))"
  shows "fst (fetch_server_files env args w) = empty_state env
         \<and> data (empty_state env) = []
         \<and> deploy_connected env args localFiles w
             = deploy_diff env args localFiles (empty_state env) (snd (fetch_server_files env args w))
         \<and> (dangerous_clean_slate args \<longrightarrow>
              trace (snd (fetch_server_files env args w))
                = trace w @ [Ftp ClearWorkingDir (client env (trace w) ClearWorkingDir)])"
proof -
  have f: "fst (fetch_server_files env args w) = empty_state env"
  proof (cases "dangerous_clean_slate args")
    case True
    then show ?thesis by (simp add: fetch_cases no_server_state_def)
  next
    case False
    with assms have "isl (fst (downloadFileList env (state_name args) w))"
      by (auto simp: downloadFileList_def Let_def isl_def split: option.splits sum.splits)
    then obtain e w' where "downloadFileList env (state_name args) w = (Inl e, w')"
      by (cases "downloadFileList env (state_name args) w") (auto simp: isl_def)
    with False show ?thesis by (simp add: fetch_cases no_server_state_def)
  qed
  have c: "trace (snd (fetch_server_files env args w))
             = trace w @ [Ftp ClearWorkingDir (client env (trace w) ClearWorkingDir)]"
    if "dangerous_clean_slate args"
    using that by (simp add: fetch_cases no_server_state_def split: option.splits)
  have d: "deploy_connected env args localFiles w
             = deploy_diff env args localFiles (fst (fetch_server_files env args w))
                 (snd (fetch_server_files env args w))"
    by (simp add: deploy_connected_def split: prod.splits)
  show ?thesis using f c d by (simp add: empty_state_def)
qed

theorem bootstrap_with_empty_inventory_witness:
  "client env0 (trace w_init) (DownloadTo (state_name args0)) \<noteq> None
   \<and> fst (fetch_server_files env0 args0 w_init) = empty_state env0
   \<and> data (empty_state env0) = []
   \<and> deploy_connected env0 args0 local0 w_init
       = deploy_diff env0 args0 local0 (empty_state env0) (snd (fetch_server_files env0 args0 w_init))"
proof -
  have h: "client env0 (trace w_init) (DownloadTo (state_name args0)) \<noteq> None"
    by (simp add: env0_def)
  then have "dangerous_clean_slate args0
           \<or> client env0 (trace w_init) (DownloadTo (state_name args0)) \<noteq> None
           \<or> isl (json_parse env0 (download_data env0 (trace w_init) (state_name args0)))"
    by simp
  from bootstrap_with_empty_inventory [OF this, of local0] h show ?thesis by simp
qed

section \<open>Removals\<close>

text \<open>
  Claim C4. When the client answers a removal of a file or of a folder with the
  not-found code, the \<open>try\<close> around it ends normally and the log says that the file or
  folder does not exist; with any other error the \<open>try\<close> ends in that error. In the
  record of the five phases, a removal that failed with another error is the last call
  and its error is the exception of the phases; a removal answered with the not-found
  code, when it is the last call, leaves the phases ending normally.
\<close>

theorem removal_tolerates_only_not_found:
  "(client env (trace w) (Remove f) = Some e \<longrightarrow>
      (if code e = Some (FileNotFoundOrNoAccess env)
       then fst (try_remove env f w) = Inr ()
            \<and> (LInfo, FileDoesNotExist) \<in> set (logs (snd (try_remove env f w)))
       else fst (try_remove env f w) = Inl e))
   \<and> (client env (trace w) (RemoveDir d) = Some e \<longrightarrow>
      (if code e = Some (FileNotFoundOrNoAccess env)
       then fst (try_removeDir env d w) = Inr ()
            \<and> (LDebug, FolderDoesNotExist) \<in> set (logs (snd (try_removeDir env d w)))
       else fst (try_removeDir env d w) = Inl e))
   \<and> (trace (snd (deploy_phases env args diffs w)) = trace w @ pre @ Ftp op (Some e) # post
        \<and> is_removal op \<longrightarrow>
      (if code e = Some (FileNotFoundOrNoAccess env)
       then post = [] \<longrightarrow> fst (deploy_phases env args diffs w) = Inr ()
       else post = [] \<and> fst (deploy_phases env args diffs w) = Inl e))"
proof (intro conjI impI)
  assume "client env (trace w) (Remove f) = Some e"
  then show "if code e = Some (FileNotFoundOrNoAccess env)
       then fst (try_remove env f w) = Inr ()
            \<and> (LInfo, FileDoesNotExist) \<in> set (logs (snd (try_remove env f w)))
       else fst (try_remove env f w) = Inl e"
    by (simp add: try_remove_def ftp_def)
next
  assume "client env (trace w) (RemoveDir d) = Some e"
  then show "if code e = Some (FileNotFoundOrNoAccess env)
       then fst (try_removeDir env d w) = Inr ()
            \<and> (LDebug, FolderDoesNotExist) \<in> set (logs (snd (try_removeDir env d w)))
       else fst (try_removeDir env d w) = Inl e"
    by (simp add: try_removeDir_def ftp_def)
next
  assume a: "trace (snd (deploy_phases env args diffs w)) = trace w @ pre @ Ftp op (Some e) # post
        \<and> is_removal op"
  obtain r w' where p: "deploy_phases env args diffs w = (r, w')"
    by (cases "deploy_phases env args diffs w")
  with refines_deploy_phases [of env args diffs]
  have rs: "run_steps env (phase_steps (state_name args) diffs) (trace w) = (r, trace w')"
    by (metis refines_def fst_conv snd_conv prod.collapse)
  from run_steps_ended [OF good_phase_steps, of env "state_name args" diffs "trace w"] rs
  obtain added where t: "trace w' = trace w @ added" and en: "ended env r added"
    by auto
  from a p t have added: "added = pre @ Ftp op (Some e) # post" by simp
  from a have nb: "\<not> is_bootstrap op" by (simp add: removal_not_bootstrap)
  show "if code e = Some (FileNotFoundOrNoAccess env)
       then post = [] \<longrightarrow> fst (deploy_phases env args diffs w) = Inr ()
       else post = [] \<and> fst (deploy_phases env args diffs w) = Inl e"
  proof (cases "code e = Some (FileNotFoundOrNoAccess env)")
    case True
    with a have nf: "\<not> fatal env (Ftp op (Some e))" by simp
    have "r = Inr ()" if "post = []"
      using tolerated_not_cause [OF en _ nf, of pre] added that by simp
    with True p show ?thesis by simp
  next
    case False
    with nb have "fatal env (Ftp op (Some e))" by simp
    from fatal_is_last [OF en added this] have "post = []" and "r = Inl e" by auto
    with False p show ?thesis by simp
  qed
qed

theorem removal_tolerates_only_not_found_witness:
  "fst (try_remove env_gone ''old.txt'' w_init) = Inr ()
   \<and> (LInfo, FileDoesNotExist) \<in> set (logs (snd (try_remove env_gone ''old.txt'' w_init)))
   \<and> fst (try_removeDir env_gone ''old/'' w_init) = Inr ()
   \<and> (LDebug, FolderDoesNotExist) \<in> set (logs (snd (try_removeDir env_gone ''old/'' w_init)))
   \<and> fst (deploy_phases env_gone args0 diffs_old w_init) = Inr ()
   \<and> fst (try_remove env_denied ''old.txt'' w_init) = Inl (FTPError 450)
   \<and> fst (try_removeDir env_denied ''old/'' w_init) = Inl (FTPError 450)
   \<and> fst (deploy_phases env_denied args0 diffs_old w_init) = Inl (FTPError 450)"
proof -
  have g1: "client env_gone (trace w_init) (Remove ''old.txt'') = Some (FTPError 550)"
    and g2: "client env_gone (trace w_init) (RemoveDir ''old/'') = Some (FTPError 550)"
    and g3: "code (FTPError 550) = Some (FileNotFoundOrNoAccess env_gone)"
    by (simp_all add: env_gone_def env0_def)
  have g4: "trace (snd (deploy_phases env_gone args0 diffs_old w_init))
              = trace w_init @ [] @ Ftp (Remove ''old.txt'') (Some (FTPError 550)) # []"
    by (simp add: deploy_phases_def diffs_old_def file_entry_def args0_def removeFile_def
          breadcrumbs_old run_defs env_gone_def env0_def w_init_def)
  have d1: "client env_denied (trace w_init) (Remove ''old.txt'') = Some (FTPError 450)"
    and d2: "client env_denied (trace w_init) (RemoveDir ''old/'') = Some (FTPError 450)"
    and d3: "code (FTPError 450) \<noteq> Some (FileNotFoundOrNoAccess env_denied)"
    by (simp_all add: env_denied_def env0_def)
  have d4: "trace (snd (deploy_phases env_denied args0 diffs_old w_init))
              = trace w_init @ [] @ Ftp (Remove ''old.txt'') (Some (FTPError 450)) # []"
    by (simp add: deploy_phases_def diffs_old_def file_entry_def args0_def removeFile_def
          breadcrumbs_old run_defs env_denied_def env0_def w_init_def)
  from removal_tolerates_only_not_found [of env_gone w_init "''old.txt''" "FTPError 550" "''old/''"
         args0 diffs_old "[]" "Remove ''old.txt''" "[]"]
       removal_tolerates_only_not_found [of env_denied w_init "''old.txt''" "FTPError 450" "''old/''"
         args0 diffs_old "[]" "Remove ''old.txt''" "[]"]
       g1 g2 g3 g4 d1 d2 d3 d4
  show ?thesis by simp
qed

section \<open>Failures\<close>

text \<open>
  Claim C5. In the record of a run of \<open>deploy\<close>, a call that failed fatally (any failed
  call other than the two of the bootstrap and other than a removal answered with the
  not-found code) is followed by nothing, or by the closing of the client alone: no
  further mutation, no upload of the state file, and nothing that undoes the calls
  before it.
\<close>

theorem deploy_stops_at_fatal_failure:
  assumes "trace (snd (deploy env args w0)) = trace w0 @ pre @ Ftp op (Some e) # post"
      and "fatal env (Ftp op (Some e))"
  shows "post = [] \<or> post = [Ftp Close None]"
proof -
  from deploy_shape [of env args w0] obtain added closing where
    t: "trace (snd (deploy env args w0)) = trace w0 @ added @ closing"
    and cl: "closing = [] \<or> closing = [Ftp Close None]"
    and alt: "calm env added
        \<or> (\<exists>a op e. added = a @ [Ftp op (Some e)] \<and> calm env a \<and> fatal env (Ftp op (Some e))
              \<and> reported e (snd (deploy env args w0))
              \<and> resolves_after env (deploy env args w0))"
    by blast
  from t assms(1) have eq: "added @ closing = pre @ Ftp op (Some e) # post" by simp
  from alt show ?thesis
  proof
    assume "calm env added"
    with closing_calm [OF cl, of env] have "calm env (pre @ Ftp op (Some e) # post)"
      using eq by (metis calm_append)
    with assms(2) show ?thesis by simp
  next
    assume "\<exists>a op e. added = a @ [Ftp op (Some e)] \<and> calm env a \<and> fatal env (Ftp op (Some e))
              \<and> reported e (snd (deploy env args w0))
              \<and> resolves_after env (deploy env args w0)"
    then obtain a op' e' where a: "added = a @ [Ftp op' (Some e')]" and ca: "calm env a" by blast
    from eq a have "a @ [Ftp op' (Some e')] @ closing = pre @ Ftp op (Some e) # post" by simp
    from only_fatal [OF this ca closing_calm [OF cl] assms(2)] cl show ?thesis by simp
  qed
qed

theorem deploy_stops_at_fatal_failure_witness:
  "trace (snd (deploy env_full args0 w_init))
     = trace w_init
       @ [WriteFile ''./.sync-state.json'' ''{}'',
          Ftp (Access ''ftp.example.org'' ''user'' ''secret'') None,
          Ftp (DownloadTo ''.sync-state.json'') (Some (FTPError 550)),
          Ftp (EnsureDir ''docs'') None, Ftp Cdup None, Ftp (EnsureDir ''docs'') None]
       @ Ftp (UploadFrom ''docs/a.txt'' ''a.txt'') (Some (FTPError 552)) # [Ftp Close None]
   \<and> fatal env_full (Ftp (UploadFrom ''docs/a.txt'' ''a.txt'') (Some (FTPError 552)))
   \<and> ([Ftp Close None] = [] \<or> [Ftp Close None] = [Ftp Close None])"
proof -
  have f: "fatal env_full (Ftp (UploadFrom ''docs/a.txt'' ''a.txt'') (Some (FTPError 552)))"
    by simp
  have tw: "trace w_init = []" by (simp add: w_init_def)
  have t: "trace (snd (deploy env_full args0 w_init))
             = trace w_init
               @ [WriteFile ''./.sync-state.json'' ''{}'',
                  Ftp (Access ''ftp.example.org'' ''user'' ''secret'') None,
                  Ftp (DownloadTo ''.sync-state.json'') (Some (FTPError 550)),
                  Ftp (EnsureDir ''docs'') None, Ftp Cdup None, Ftp (EnsureDir ''docs'') None]
               @ Ftp (UploadFrom ''docs/a.txt'' ''a.txt'') (Some (FTPError 552))
               # [Ftp Close None]"
    by (simp add: run_full tw)
  from deploy_stops_at_fatal_failure [OF t f] t f show ?thesis by blast
qed

text \<open>
  Claim C6, as stated, at a server that refuses to store \<open>a.txt\<close>: the upload fails
  fatally in the second phase, and the promise of \<open>deploy\<close> resolves all the same.
\<close>

theorem failed_upload_counterexample:
  "trace (snd (deploy env_full args0 w_init))
     = [WriteFile ''./.sync-state.json'' ''{}'',
        Ftp (Access ''ftp.example.org'' ''user'' ''secret'') None,
        Ftp (DownloadTo ''.sync-state.json'') (Some (FTPError 550)),
        Ftp (EnsureDir ''docs'') None, Ftp Cdup None, Ftp (EnsureDir ''docs'') None,
        Ftp (UploadFrom ''docs/a.txt'' ''a.txt'') (Some (FTPError 552)),
        Ftp Close None]
   \<and> fst (deploy env_full args0 w_init) = Resolved ()"
  by (simp add: run_full result_full)

text \<open>
  Claim C6, amended. A fatal failure of a call on the client (of the connection or
  during a phase) is caught inside \<open>deploy\<close> and is on the log at warn level; it is not
  passed on to the result: the promise of \<open>deploy\<close> resolves, unless the closing report
  itself throws.
\<close>

theorem deploy_reports_and_resolves:
  assumes "trace (snd (deploy env args w0)) = trace w0 @ pre @ Ftp op (Some e) # post"
      and "fatal env (Ftp op (Some e))"
  shows "reported e (snd (deploy env args w0))
         \<and> (closing_report env (trace (snd (deploy env args w0))) = None
             \<longrightarrow> fst (deploy env args w0) = Resolved ())"
proof -
  from deploy_shape [of env args w0] obtain added closing where
    t: "trace (snd (deploy env args w0)) = trace w0 @ added @ closing"
    and cl: "closing = [] \<or> closing = [Ftp Close None]"
    and alt: "calm env added
        \<or> (\<exists>a op e. added = a @ [Ftp op (Some e)] \<and> calm env a \<and> fatal env (Ftp op (Some e))
              \<and> reported e (snd (deploy env args w0))
              \<and> resolves_after env (deploy env args w0))"
    by blast
  from t assms(1) have eq: "added @ closing = pre @ Ftp op (Some e) # post" by simp
  from alt show ?thesis
  proof
    assume "calm env added"
    with closing_calm [OF cl, of env] have "calm env (pre @ Ftp op (Some e) # post)"
      using eq by (metis calm_append)
    with assms(2) show ?thesis by simp
  next
    assume "\<exists>a op e. added = a @ [Ftp op (Some e)] \<and> calm env a \<and> fatal env (Ftp op (Some e))
              \<and> reported e (snd (deploy env args w0))
              \<and> resolves_after env (deploy env args w0)"
    then obtain a op' e' where a: "added = a @ [Ftp op' (Some e')]" and ca: "calm env a"
      and rep: "reported e' (snd (deploy env args w0))"
      and res: "resolves_after env (deploy env args w0)"
      by blast
    from eq a have "a @ [Ftp op' (Some e')] @ closing = pre @ Ftp op (Some e) # post" by simp
    from only_fatal [OF this ca closing_calm [OF cl] assms(2)] have "e' = e" by simp
    with rep res show ?thesis by (simp add: resolves_after_def)
  qed
qed

theorem deploy_reports_and_resolves_witness:
  "trace (snd (deploy env_refused args0 w_init))
     = trace w_init @ [WriteFile ''./.sync-state.json'' ''{}'']
       @ Ftp (Access ''ftp.example.org'' ''user'' ''secret'') (Some (FTPError 530)) # [Ftp Close None]
   \<and> fatal env_refused (Ftp (Access ''ftp.example.org'' ''user'' ''secret'') (Some (FTPError 530)))
   \<and> reported (FTPError 530) (snd (deploy env_refused args0 w_init))
   \<and> fst (deploy env_refused args0 w_init) = Resolved ()"
proof -
  have f: "fatal env_refused (Ftp (Access ''ftp.example.org'' ''user'' ''secret'') (Some (FTPError 530)))"
    by simp
  have tw: "trace w_init = []" by (simp add: w_init_def)
  have t: "trace (snd (deploy env_refused args0 w_init))
     = trace w_init @ [WriteFile ''./.sync-state.json'' ''{}'']
       @ Ftp (Access ''ftp.example.org'' ''user'' ''secret'') (Some (FTPError 530)) # [Ftp Close None]"
    by (simp add: run_refused tw)
  have r: "closing_report env_refused (trace (snd (deploy env_refused args0 w_init))) = None"
    by (simp add: env_refused_def env0_def)
  from deploy_reports_and_resolves [OF t f] t f r show ?thesis by blast
qed

section \<open>The local state file\<close>

text \<open>
  Claim C10. When the local inventory has been built and the file system takes the
  write, the first effect of \<open>deploy\<close> is the write of the serialized inventory to
  \<open>./<state-name>\<close>, and the connection attempt comes next, whatever its outcome and
  whatever follows.
\<close>

theorem state_file_written_before_connecting:
  assumes "fst (getLocalFiles env args w) = Resolved localFiles"
      and "writeFileSync env (''./'' @ state_name args) (json_stringify env localFiles) = None"
  shows "\<exists>rest. trace (snd (deploy env args w0))
           = trace w0 @ WriteFile (''./'' @ state_name args) (json_stringify env localFiles)
               # Ftp (Access (server args) (username args) (password args))
                   (client env (trace w0 @ [WriteFile (''./'' @ state_name args) (json_stringify env localFiles)])
                      (Access (server args) (username args) (password args)))
               # rest"
proof -
  let ?ev = "WriteFile (''./'' @ state_name args) (json_stringify env localFiles)"
  let ?acc = "Access (server args) (username args) (password args)"
  from assms(1) getLocalFiles_world [of env args "deploy_welcome w0" w]
  obtain w1 where g: "getLocalFiles env args (deploy_welcome w0) = (Resolved localFiles, w1)"
    by (cases "getLocalFiles env args (deploy_welcome w0)") simp
  let ?w = "w1\<lparr>trace := trace w0 @ [?ev]\<rparr>"
  obtain c w2 where ses: "deploy_session env args localFiles ?w = (c, w2)"
    by (cases "deploy_session env args localFiles ?w")
  have d: "trace (snd (deploy env args w0)) = trace w2 @ (if c = Returned then [] else [Ftp Close None])"
    using deploy_written [OF g assms(2)] ses by (cases c) (simp_all add: trace_finish)
  have "\<exists>rest. trace w2 = trace ?w @ Ftp ?acc (client env (trace ?w) ?acc) # rest"
  proof (cases "client env (trace ?w) ?acc")
    case (Some e)
    with ses show ?thesis by (auto simp: deploy_session_def ftp_def)
  next
    case None
    let ?w' = "?w\<lparr>trace := trace ?w @ [Ftp ?acc None]\<rparr>"
    from settled_connected [of env ?w' args localFiles]
    obtain added where "trace (snd (deploy_connected env args localFiles ?w')) = trace ?w' @ added"
      unfolding settled_def by blast
    with None ses show ?thesis by (simp add: deploy_session_def ftp_def)
  qed
  then obtain rest where "trace w2 = trace ?w @ Ftp ?acc (client env (trace ?w) ?acc) # rest"
    by blast
  with d show ?thesis by simp
qed

theorem state_file_written_before_connecting_witness:
  "fst (getLocalFiles env0 args0 w_init) = Resolved local0
   \<and> (\<exists>rest. trace (snd (deploy env0 args0 w_init))
         = WriteFile ''./.sync-state.json'' ''{}''
           # Ftp (Access ''ftp.example.org'' ''user'' ''secret'') None # rest)"
proof -
  have "getLocalFiles (env0\<lparr>client := client env0\<rparr>) args0 w_init = (Resolved local0, w_init)"
    by (rule local_files0)
  then have g: "fst (getLocalFiles env0 args0 w_init) = Resolved local0" by simp
  have wr: "writeFileSync env0 (''./'' @ state_name args0) (json_stringify env0 local0) = None"
    by (simp add: env0_def)
  from state_file_written_before_connecting [OF g wr, of w_init] g show ?thesis
    by (simp add: env0_def args0_def w_init_def)
qed

end
